theory Spec2Isabelle
  imports Complex_Main "HOL-Library.AList"
begin

section \<open>Caching and outbound throttling layer of the travel assistant\<close>

text \<open>
  The development embeds \<^verbatim>\<open>agents/common/utils.py\<close> (\<^verbatim>\<open>RateLimiter\<close>,
  \<^verbatim>\<open>TTLCache\<close>) and the get-or-fetch functions of \<^verbatim>\<open>agents/common/weather.py\<close>.
  Python floats (clock readings, rates, window widths) are idealised as \<open>real\<close>; Python
  ints are \<open>int\<close>. Every reading of \<^verbatim>\<open>time.time()\<close> is an explicit argument of the
  function that takes it. A raised exception is the \<open>Inl\<close> branch of a sum; where a call
  can raise after it has changed the object, the \<open>Inl\<close> branch carries the object as the
  raise leaves it.
\<close>

subsection \<open>Exceptions\<close>

datatype py_error =
    KeyError | IndexError | StopIteration | TypeError | AttributeError | ValueError
  | OverflowError | RequestException | JSONDecodeError

text \<open>
  Floats are idealised as reals except for their range: converting an int to a float
  (\<^verbatim>\<open>float(i)\<close>, or \<^verbatim>\<open>x + i\<close> with a float \<open>x\<close>) raises OverflowError when the int rounds
  beyond the largest double, that is from \<open>2^1024 - 2^970\<close> on in absolute value.
\<close>

definition float_overflows :: "int \<Rightarrow> bool" where
  "float_overflows i \<longleftrightarrow> 2 ^ 1024 - 2 ^ 970 \<le> \<bar>i\<bar>"

subsection \<open>\<^verbatim>\<open>collections.OrderedDict\<close>\<close>

text \<open>
  An ordered dictionary is an association list in insertion order: the head is the oldest
  entry (what \<^verbatim>\<open>next(iter(d))\<close> yields), the last element the most recently moved one.
\<close>

type_synonym ('k, 'v) odict = "('k \<times> 'v) list"

definition od_contains :: "('k, 'v) odict \<Rightarrow> 'k \<Rightarrow> bool" where
  \<comment> \<open>\<^verbatim>\<open>key in d\<close>\<close>
  "od_contains d k = (k \<in> set (map fst d))"

definition od_setitem :: "('k, 'v) odict \<Rightarrow> 'k \<Rightarrow> 'v \<Rightarrow> ('k, 'v) odict" where
  \<comment> \<open>\<^verbatim>\<open>d[key] = value\<close>: an existing key keeps its position, a new key goes to the end\<close>
  "od_setitem d k v = AList.update k v d"

definition od_delitem :: "('k, 'v) odict \<Rightarrow> 'k \<Rightarrow> ('k, 'v) odict" where
  \<comment> \<open>\<^verbatim>\<open>del d[key]\<close>, only ever called on a key that is present\<close>
  "od_delitem d k = AList.delete k d"

definition move_to_end :: "('k, 'v) odict \<Rightarrow> 'k \<Rightarrow> py_error + ('k, 'v) odict" where
  \<comment> \<open>\<^verbatim>\<open>d.move_to_end(key)\<close> raises KeyError on a missing key\<close>
  "move_to_end d k =
     (case map_of d k of
        None \<Rightarrow> Inl KeyError
      | Some v \<Rightarrow> Inr (AList.delete k d @ [(k, v)]))"

subsection \<open>\<^verbatim>\<open>TTLCache\<close>\<close>

record ('k, 'v) TTLCache =
  max_items :: int
  cache :: "('k, 'v) odict"
  expirations :: "'k \<rightharpoonup> real"

definition TTLCache_init :: "int \<Rightarrow> ('k, 'v) TTLCache" where
  "TTLCache_init m = \<lparr>max_items = m, cache = [], expirations = Map.empty\<rparr>"

definition TTLCache_remove_key :: "('k, 'v) TTLCache \<Rightarrow> 'k \<Rightarrow> ('k, 'v) TTLCache" where
  \<comment> \<open>\<^verbatim>\<open>_remove_key\<close>\<close>
  "TTLCache_remove_key c key =
     (let c1 = (if od_contains (cache c) key
                then c\<lparr>cache := od_delitem (cache c) key\<rparr> else c)
      in if expirations c1 key \<noteq> None
         then c1\<lparr>expirations := (expirations c1)(key := None)\<rparr> else c1)"

definition TTLCache_get ::
  "('k, 'v) TTLCache \<Rightarrow> 'k \<Rightarrow> int \<Rightarrow> real \<Rightarrow> py_error + ('v option \<times> ('k, 'v) TTLCache)" where
  \<comment> \<open>\<^verbatim>\<open>get(key, ttl)\<close> with \<open>now\<close> the reading of the clock; the result \<open>None\<close> is
      Python's \<^verbatim>\<open>None\<close> for a missing or expired key, \<open>Some v\<close> the stored value\<close>
  "TTLCache_get c key ttl now =
     (if \<not> od_contains (cache c) key then Inr (None, c)
      else case expirations c key of
        None \<Rightarrow> Inl KeyError
      | Some expiry \<Rightarrow>
          if now > expiry then Inr (None, TTLCache_remove_key c key)
          else (case move_to_end (cache c) key of
                  Inl e \<Rightarrow> Inl e
                | Inr d \<Rightarrow>
                    (case map_of d key of
                       None \<Rightarrow> Inl KeyError
                     | Some v \<Rightarrow> Inr (Some v, c\<lparr>cache := d\<rparr>))))"

definition TTLCache_set ::
  "('k, 'v) TTLCache \<Rightarrow> 'k \<Rightarrow> 'v \<Rightarrow> int \<Rightarrow> real
     \<Rightarrow> (py_error \<times> ('k, 'v) TTLCache) + ('k, 'v) TTLCache" where
  \<comment> \<open>\<^verbatim>\<open>set(key, value, ttl)\<close>. \<^verbatim>\<open>next(iter(self.cache))\<close> raises StopIteration on an
      empty dictionary (line 90, nothing changed yet); \<^verbatim>\<open>time.time() + ttl\<close> raises
      OverflowError for an int beyond the float range (line 94, after the eviction and
      after line 93 has written the value). \<open>Inl (e, c')\<close> is the exception with the
      cache it leaves behind.\<close>
  "TTLCache_set c key val ttl now =
     (case (if int (length (cache c)) \<ge> max_items c \<and> \<not> od_contains (cache c) key
            then (case cache c of
                    [] \<Rightarrow> Inl (StopIteration, c)
                  | (oldest_key, _) # _ \<Rightarrow> Inr (TTLCache_remove_key c oldest_key))
            else Inr c) of
        Inl raised \<Rightarrow> Inl raised
      | Inr c1 \<Rightarrow>
          (let c2 = c1\<lparr>cache := od_setitem (cache c1) key val\<rparr>
           in if float_overflows ttl then Inl (OverflowError, c2)
              else
                let c3 = c2\<lparr>expirations := (expirations c2)(key \<mapsto> now + real_of_int ttl)\<rparr>
                in case move_to_end (cache c3) key of
                     Inl e \<Rightarrow> Inl (e, c3)
                   | Inr d \<Rightarrow> Inr (c3\<lparr>cache := d\<rparr>)))"

definition TTLCache_clear :: "('k, 'v) TTLCache \<Rightarrow> ('k, 'v) TTLCache" where
  "TTLCache_clear c = c\<lparr>cache := [], expirations := Map.empty\<rparr>"

definition TTLCache_size :: "('k, 'v) TTLCache \<Rightarrow> int" where
  "TTLCache_size c = int (length (cache c))"

subsection \<open>Sequences of cache operations\<close>

text \<open>
  A caller issues \<^verbatim>\<open>get\<close>, \<^verbatim>\<open>set\<close> and \<^verbatim>\<open>clear\<close> in any order, each at its own
  clock reading, and goes on after a call that raised: \<open>TTLCache_apply\<close> is the cache
  object after the call. \<^verbatim>\<open>get\<close> raises only at line 78, before any change; \<^verbatim>\<open>set\<close>
  leaves what \<open>TTLCache_set\<close> says.
\<close>

datatype ('k, 'v) cache_op = Get 'k int real | Set 'k 'v int real | Clear

fun TTLCache_apply :: "('k, 'v) TTLCache \<Rightarrow> ('k, 'v) cache_op \<Rightarrow> ('k, 'v) TTLCache" where
  "TTLCache_apply c (Get key ttl now) =
     (case TTLCache_get c key ttl now of Inl e \<Rightarrow> c | Inr (r, c') \<Rightarrow> c')"
| "TTLCache_apply c (Set key val ttl now) =
     (case TTLCache_set c key val ttl now of Inl (e, c') \<Rightarrow> c' | Inr c' \<Rightarrow> c')"
| "TTLCache_apply c Clear = TTLCache_clear c"

definition TTLCache_run :: "('k, 'v) TTLCache \<Rightarrow> ('k, 'v) cache_op list \<Rightarrow> ('k, 'v) TTLCache" where
  "TTLCache_run c ops = foldl TTLCache_apply c ops"

text \<open>
  An operation is on key \<open>k\<close> when it is a \<^verbatim>\<open>get\<close> or a \<^verbatim>\<open>set\<close> of \<open>k\<close>, or \<^verbatim>\<open>clear\<close>, which
  is on every key. \<open>ttl_in_range\<close> holds of every operation but a \<^verbatim>\<open>set\<close> whose ttl is
  beyond the float range.
\<close>

fun on_key :: "'k \<Rightarrow> ('k, 'v) cache_op \<Rightarrow> bool" where
  "on_key k (Get key ttl now) = (key = k)"
| "on_key k (Set key val ttl now) = (key = k)"
| "on_key k Clear = True"

fun is_get :: "('k, 'v) cache_op \<Rightarrow> bool" where
  "is_get (Get key ttl now) = True"
| "is_get (Set key val ttl now) = False"
| "is_get Clear = False"

fun ttl_in_range :: "('k, 'v) cache_op \<Rightarrow> bool" where
  "ttl_in_range (Set key val ttl now) = (\<not> float_overflows ttl)"
| "ttl_in_range (Get key ttl now) = True"
| "ttl_in_range Clear = True"




text \<open>The two structures track the same keys, each key once; the size bound.\<close>

definition consistent :: "('k, 'v) TTLCache \<Rightarrow> bool" where
  "consistent c \<longleftrightarrow>
     distinct (map fst (cache c)) \<and> set (map fst (cache c)) = dom (expirations c)"


subsection \<open>\<^verbatim>\<open>RateLimiter\<close>\<close>

record RateLimiter =
  rps :: real
  window_sec :: real
  events :: "real list"

definition RateLimiter_init :: "real \<Rightarrow> real \<Rightarrow> RateLimiter" where
  "RateLimiter_init r w = \<lparr>rps = r, window_sec = w, events = []\<rparr>"

definition py_int :: "real \<Rightarrow> int" where
  \<comment> \<open>\<^verbatim>\<open>int(x)\<close> of a float truncates towards zero\<close>
  "py_int x = (if 0 \<le> x then \<lfloor>x\<rfloor> else \<lceil>x\<rceil>)"

fun popleft_expired :: "real list \<Rightarrow> real \<Rightarrow> real list" where
  \<comment> \<open>\<^verbatim>\<open>while self.events and self.events[0] < cutoff: self.events.popleft()\<close>\<close>
  "popleft_expired [] cutoff = []"
| "popleft_expired (e # es) cutoff =
     (if e < cutoff then popleft_expired es cutoff else e # es)"

text \<open>
  \<^verbatim>\<open>wait()\<close> reads the clock at line 42 (\<open>t1\<close>), after the sleep at line 54 (\<open>t2\<close>,
  read only when it slept) and at line 60 (\<open>t3\<close>, the recorded timestamp). The result is
  the pair of what the call did (an exception, or the duration handed to
  \<^verbatim>\<open>time.sleep\<close>, \<open>None\<close> when it did not sleep) and the limiter it leaves behind: the
  IndexError of \<^verbatim>\<open>self.events[0]\<close> on an empty deque comes after the pruning loop.
\<close>

definition RateLimiter_wait ::
  "RateLimiter \<Rightarrow> real \<Rightarrow> real \<Rightarrow> real \<Rightarrow> (py_error + real option) \<times> RateLimiter" where
  "RateLimiter_wait rl t1 t2 t3 =
     (if rps rl \<le> 0 then (Inr None, rl)
      else
        let now = t1;
            cutoff = now - window_sec rl;
            rl1 = rl\<lparr>events := popleft_expired (events rl) cutoff\<rparr>
        in if int (length (events rl1)) \<ge> py_int (rps rl1)
           then (case events rl1 of
                   [] \<Rightarrow> (Inl IndexError, rl1)
                 | e0 # _ \<Rightarrow>
                     let sleep_for = e0 + window_sec rl1 - now
                     in if sleep_for > 0
                        then let now' = t2;
                                 cutoff' = now' - window_sec rl1;
                                 rl2 = rl1\<lparr>events := popleft_expired (events rl1) cutoff'\<rparr>
                             in (Inr (Some sleep_for), rl2\<lparr>events := events rl2 @ [t3]\<rparr>)
                        else (Inr None, rl1\<lparr>events := events rl1 @ [t3]\<rparr>))
           else (Inr None, rl1\<lparr>events := events rl1 @ [t3]\<rparr>))"

subsection \<open>Sequential calls of \<^verbatim>\<open>wait()\<close>\<close>

text \<open>
  A run is the list of the clock readings of its calls. \<open>admissions\<close> are the timestamps
  the calls record, \<open>window_count ts w now\<close> the number of timestamps in the closed
  window \<open>[now - w, now]\<close>. \<open>clock_ok\<close> says that the clock never runs backwards and that
  \<^verbatim>\<open>time.sleep\<close> returns no earlier than asked; \<open>off_boundary\<close> says that a call which finds
  the deque full takes no reading at the exact instant at which the oldest timestamp
  leaves the window.
\<close>

type_synonym ticks = "real \<times> real \<times> real"

fun RateLimiter_run :: "RateLimiter \<Rightarrow> ticks list \<Rightarrow> py_error + RateLimiter" where
  "RateLimiter_run rl [] = Inr rl"
| "RateLimiter_run rl ((t1, t2, t3) # cs) =
     (case RateLimiter_wait rl t1 t2 t3 of
        (Inl e, rl') \<Rightarrow> Inl e
      | (Inr slept, rl') \<Rightarrow> RateLimiter_run rl' cs)"

fun admissions :: "ticks list \<Rightarrow> real list" where
  "admissions [] = []"
| "admissions ((t1, t2, t3) # cs) = t3 # admissions cs"

definition window_count :: "real list \<Rightarrow> real \<Rightarrow> real \<Rightarrow> nat" where
  "window_count ts w now = length (filter (\<lambda>e. now - w \<le> e \<and> e \<le> now) ts)"

fun clock_ok :: "RateLimiter \<Rightarrow> real \<Rightarrow> ticks list \<Rightarrow> bool" where
  "clock_ok rl t0 [] = True"
| "clock_ok rl t0 ((t1, t2, t3) # cs) =
     (t0 \<le> t1 \<and> t1 \<le> t3 \<and>
      (case RateLimiter_wait rl t1 t2 t3 of
         (Inr (Some sleep_for), rl') \<Rightarrow> t1 + sleep_for \<le> t2 \<and> t2 \<le> t3
       | _ \<Rightarrow> True) \<and>
      clock_ok (snd (RateLimiter_wait rl t1 t2 t3)) t3 cs)"

fun off_boundary :: "RateLimiter \<Rightarrow> ticks list \<Rightarrow> bool" where
  "off_boundary rl [] = True"
| "off_boundary rl ((t1, t2, t3) # cs) =
     ((case popleft_expired (events rl) (t1 - window_sec rl) of
         [] \<Rightarrow> True
       | e0 # es \<Rightarrow>
           py_int (rps rl) \<le> int (length (e0 # es)) \<longrightarrow>
             t1 \<noteq> e0 + window_sec rl \<and> t2 \<noteq> e0 + window_sec rl) \<and>
      off_boundary (snd (RateLimiter_wait rl t1 t2 t3)) cs)"

subsection \<open>Python values\<close>

text \<open>
  The values that flow through the facade: what \<^verbatim>\<open>response.json()\<close> can return, and the
  tuple \<^verbatim>\<open>(lat, lon)\<close> that \<^verbatim>\<open>get_coordinates\<close> stores. A dictionary is the list of its items
  (keys distinct, as Python keeps them). \<open>truthy\<close> is the test \<^verbatim>\<open>if x:\<close>.
\<close>

datatype pyval =
    PNone | PBool bool | PInt int | PFloat real | PStr string
  | PList "pyval list" | PTuple "pyval list" | PDict "(string \<times> pyval) list"

fun truthy :: "pyval \<Rightarrow> bool" where
  "truthy PNone = False"
| "truthy (PBool b) = b"
| "truthy (PInt i) = (i \<noteq> 0)"
| "truthy (PFloat x) = (x \<noteq> 0)"
| "truthy (PStr s) = (s \<noteq> [])"
| "truthy (PList xs) = (xs \<noteq> [])"
| "truthy (PTuple xs) = (xs \<noteq> [])"
| "truthy (PDict d) = (d \<noteq> [])"

text \<open>
  The Python value \<^verbatim>\<open>TTLCache.get\<close> hands to its caller: \<^verbatim>\<open>None\<close> on a miss, the stored
  value on a hit.
\<close>

definition returned :: "pyval option \<Rightarrow> pyval" where
  "returned r = (case r of None \<Rightarrow> PNone | Some v \<Rightarrow> v)"

text \<open>
  \<^verbatim>\<open>data[0]\<close>, \<^verbatim>\<open>x["lat"]\<close>, \<^verbatim>\<open>data.get(key, default)\<close> and \<^verbatim>\<open>float(x)\<close> with the exceptions
  they raise. \<^verbatim>\<open>float\<close> of a string is Python's own parser, taken as the parameter
  \<open>float_of_str\<close> (\<open>None\<close> where it raises ValueError); \<^verbatim>\<open>float\<close> of an int beyond the
  float range raises OverflowError.
\<close>

fun first_item :: "pyval \<Rightarrow> py_error + pyval" where
  "first_item (PList xs) = (case xs of [] \<Rightarrow> Inl IndexError | x # _ \<Rightarrow> Inr x)"
| "first_item (PTuple xs) = (case xs of [] \<Rightarrow> Inl IndexError | x # _ \<Rightarrow> Inr x)"
| "first_item (PStr s) = (case s of [] \<Rightarrow> Inl IndexError | ch # _ \<Rightarrow> Inr (PStr [ch]))"
| "first_item (PDict d) = Inl KeyError"
| "first_item _ = Inl TypeError"

fun item :: "pyval \<Rightarrow> string \<Rightarrow> py_error + pyval" where
  "item (PDict d) k = (case map_of d k of None \<Rightarrow> Inl KeyError | Some v \<Rightarrow> Inr v)"
| "item _ k = Inl TypeError"

fun dict_get :: "pyval \<Rightarrow> string \<Rightarrow> pyval \<Rightarrow> py_error + pyval" where
  "dict_get (PDict d) k dflt = Inr (case map_of d k of None \<Rightarrow> dflt | Some v \<Rightarrow> v)"
| "dict_get _ k dflt = Inl AttributeError"

fun py_float :: "(string \<Rightarrow> real option) \<Rightarrow> pyval \<Rightarrow> py_error + real" where
  "py_float float_of_str (PFloat x) = Inr x"
| "py_float float_of_str (PInt i) =
     (if float_overflows i then Inl OverflowError else Inr (real_of_int i))"
| "py_float float_of_str (PBool b) = Inr (if b then 1 else 0)"
| "py_float float_of_str (PStr s) =
     (case float_of_str s of None \<Rightarrow> Inl ValueError | Some x \<Rightarrow> Inr x)"
| "py_float float_of_str _ = Inl TypeError"

text \<open>\<^verbatim>\<open>str\<close> of an int, as the f-string of the forecast key formats \<^verbatim>\<open>days\<close>.\<close>

fun digits :: "nat \<Rightarrow> string" where
  "digits n = (if n < 10 then [''0123456789'' ! n]
               else digits (n div 10) @ [''0123456789'' ! (n mod 10)])"

definition str_of_int :: "int \<Rightarrow> string" where
  "str_of_int i = (if i < 0 then ''-'' @ digits (nat (- i)) else digits (nat i))"

subsection \<open>Domain errors (\<^verbatim>\<open>common.py\<close>)\<close>

text \<open>
  \<^verbatim>\<open>GeocodingError\<close> and \<^verbatim>\<open>WeatherAPIError\<close> are plain subclasses of \<^verbatim>\<open>Exception\<close>; what
  tells two instances apart is their message only. The two messages of
  \<^verbatim>\<open>get_coordinates\<close> are the constructors of \<open>geocoding_message\<close> (line 50, with the city,
  and line 62, with the exception it wraps); \<open>class_of\<close> is the class of an exception.
\<close>

datatype geocoding_message = CityNotFound string | CoordinatesFailed py_error

datatype weather_message = WeatherFailed py_error | ForecastFailed py_error

datatype exn =
    Builtin py_error
  | GeocodingError geocoding_message
  | WeatherAPIError weather_message

datatype exception_class = BuiltinClass py_error | GeocodingErrorClass | WeatherAPIErrorClass

fun class_of :: "exn \<Rightarrow> exception_class" where
  "class_of (Builtin e) = BuiltinClass e"
| "class_of (GeocodingError m) = GeocodingErrorClass"
| "class_of (WeatherAPIError m) = WeatherAPIErrorClass"

subsection \<open>The get-or-fetch functions of \<^verbatim>\<open>weather.py\<close>\<close>

text \<open>
  The module state is the three caches, the process-wide rate limiter, and the number of
  calls of \<^verbatim>\<open>session.get\<close> issued so far (\<open>external_calls\<close>). A call takes the clock
  readings of \<^verbatim>\<open>TTLCache.get\<close>, of \<^verbatim>\<open>wait()\<close> and of \<^verbatim>\<open>TTLCache.set\<close>, and what the
  transport does with the request: \<^verbatim>\<open>session.get\<close> raises a \<^verbatim>\<open>RequestException\<close> (connection
  error, timeout, retries exhausted), \<^verbatim>\<open>raise_for_status\<close> raises one (\<^verbatim>\<open>HTTPError\<close>),
  \<^verbatim>\<open>response.json()\<close> raises the JSONDecodeError of requests (a \<^verbatim>\<open>RequestException\<close> and a
  \<^verbatim>\<open>ValueError\<close>), or the body decodes to a value. The float formatting of the cache keys is
  the parameter \<open>str_of_float\<close>.
\<close>

record Config =
  GEOCODE_TTL :: int
  WEATHER_TTL :: int
  FORECAST_TTL :: int

definition Config_default :: Config where
  "Config_default = \<lparr>GEOCODE_TTL = 3600, WEATHER_TTL = 300, FORECAST_TTL = 900\<rparr>"

record world =
  geocode_cache :: "(string, pyval) TTLCache"
  weather_cache :: "(string, pyval) TTLCache"
  forecast_cache :: "(string, pyval) TTLCache"
  rate_limiter :: RateLimiter
  external_calls :: nat

definition world_init :: world where
  "world_init = \<lparr>geocode_cache = TTLCache_init 1000, weather_cache = TTLCache_init 1000,
                  forecast_cache = TTLCache_init 1000, rate_limiter = RateLimiter_init 5 1,
                  external_calls = 0\<rparr>"

record clock =
  t_lookup :: real
  t_wait :: real
  t_woke :: real
  t_admit :: real
  t_store :: real

datatype http_result = ConnectionFailed | BadStatus | NotJSON | Json pyval

definition fetched :: "http_result \<Rightarrow> py_error + pyval" where
  "fetched resp =
     (case resp of
        ConnectionFailed \<Rightarrow> Inl RequestException
      | BadStatus \<Rightarrow> Inl RequestException
      | NotJSON \<Rightarrow> Inl JSONDecodeError
      | Json data \<Rightarrow> Inr data)"

definition geocoding_handler :: "exn \<Rightarrow> exn" where
  "geocoding_handler e =
     (case e of
        Builtin b \<Rightarrow>
          if b = RequestException \<or> b = JSONDecodeError \<or> b = ValueError \<or> b = IndexError
          then GeocodingError (CoordinatesFailed b) else e
      | _ \<Rightarrow> e)"

definition weather_handler :: "(py_error \<Rightarrow> weather_message) \<Rightarrow> exn \<Rightarrow> exn" where
  "weather_handler msg e =
     (case e of
        Builtin b \<Rightarrow>
          if b = RequestException \<or> b = JSONDecodeError then WeatherAPIError (msg b) else e
      | _ \<Rightarrow> e)"

definition parse_coordinates ::
  "(string \<Rightarrow> real option) \<Rightarrow> string \<Rightarrow> pyval \<Rightarrow> exn + real \<times> real" where
  "parse_coordinates float_of_str city data =
     (if \<not> truthy data then Inl (GeocodingError (CityNotFound city))
      else case first_item data of
        Inl e \<Rightarrow> Inl (Builtin e)
      | Inr d0 \<Rightarrow>
          (case item d0 ''lat'' of
             Inl e \<Rightarrow> Inl (Builtin e)
           | Inr lat_v \<Rightarrow>
               (case py_float float_of_str lat_v of
                  Inl e \<Rightarrow> Inl (Builtin e)
                | Inr lat \<Rightarrow>
                    (case item d0 ''lon'' of
                       Inl e \<Rightarrow> Inl (Builtin e)
                     | Inr lon_v \<Rightarrow>
                         (case py_float float_of_str lon_v of
                            Inl e \<Rightarrow> Inl (Builtin e)
                          | Inr lon \<Rightarrow> Inr (lat, lon))))))"

definition get_coordinates ::
  "Config \<Rightarrow> (string \<Rightarrow> real option) \<Rightarrow> clock \<Rightarrow> http_result \<Rightarrow> world \<Rightarrow> string
     \<Rightarrow> (exn + pyval) \<times> world" where
  "get_coordinates cfg float_of_str clk resp w city =
     (let cache_key = ''geo_'' @ city in
      case TTLCache_get (geocode_cache w) cache_key (GEOCODE_TTL cfg) (t_lookup clk) of
        Inl e \<Rightarrow> (Inl (Builtin e), w)
      | Inr (r, gc) \<Rightarrow>
          let w1 = w\<lparr>geocode_cache := gc\<rparr>; cached = returned r in
          if truthy cached then (Inr cached, w1)
          else
            (case RateLimiter_wait (rate_limiter w1) (t_wait clk) (t_woke clk) (t_admit clk) of
               (Inl e, rl) \<Rightarrow> (Inl (Builtin e), w1\<lparr>rate_limiter := rl\<rparr>)
             | (Inr slept, rl) \<Rightarrow>
                 let w2 = w1\<lparr>rate_limiter := rl, external_calls := Suc (external_calls w1)\<rparr> in
                 (case fetched resp of
                    Inl e \<Rightarrow> (Inl (geocoding_handler (Builtin e)), w2)
                  | Inr data \<Rightarrow>
                      (case parse_coordinates float_of_str city data of
                         Inl e \<Rightarrow> (Inl (geocoding_handler e), w2)
                       | Inr (lat, lon) \<Rightarrow>
                           (case TTLCache_set (geocode_cache w2) cache_key
                                   (PTuple [PFloat lat, PFloat lon]) (GEOCODE_TTL cfg)
                                   (t_store clk) of
                              Inl (e, gc') \<Rightarrow>
                                (Inl (geocoding_handler (Builtin e)),
                                 w2\<lparr>geocode_cache := gc'\<rparr>)
                            | Inr gc' \<Rightarrow>
                                (Inr (PTuple [PFloat lat, PFloat lon]),
                                 w2\<lparr>geocode_cache := gc'\<rparr>))))))"

definition get_current_weather ::
  "Config \<Rightarrow> (real \<Rightarrow> string) \<Rightarrow> clock \<Rightarrow> http_result \<Rightarrow> world \<Rightarrow> real \<Rightarrow> real \<Rightarrow> string
     \<Rightarrow> (exn + pyval) \<times> world" where
  "get_current_weather cfg str_of_float clk resp w lat lon units =
     (let cache_key = ''weather_'' @ str_of_float lat @ ''_'' @ str_of_float lon @ ''_'' @ units in
      case TTLCache_get (weather_cache w) cache_key (WEATHER_TTL cfg) (t_lookup clk) of
        Inl e \<Rightarrow> (Inl (Builtin e), w)
      | Inr (r, wc) \<Rightarrow>
          let w1 = w\<lparr>weather_cache := wc\<rparr>; cached = returned r in
          if truthy cached then (Inr cached, w1)
          else
            (case RateLimiter_wait (rate_limiter w1) (t_wait clk) (t_woke clk) (t_admit clk) of
               (Inl e, rl) \<Rightarrow> (Inl (Builtin e), w1\<lparr>rate_limiter := rl\<rparr>)
             | (Inr slept, rl) \<Rightarrow>
                 let w2 = w1\<lparr>rate_limiter := rl, external_calls := Suc (external_calls w1)\<rparr> in
                 (case fetched resp of
                    Inl e \<Rightarrow> (Inl (weather_handler WeatherFailed (Builtin e)), w2)
                  | Inr data \<Rightarrow>
                      (case dict_get data ''current_weather'' (PDict []) of
                         Inl e \<Rightarrow> (Inl (weather_handler WeatherFailed (Builtin e)), w2)
                       | Inr weather_data \<Rightarrow>
                           (case TTLCache_set (weather_cache w2) cache_key weather_data
                                   (WEATHER_TTL cfg) (t_store clk) of
                              Inl (e, wc') \<Rightarrow>
                                (Inl (weather_handler WeatherFailed (Builtin e)),
                                 w2\<lparr>weather_cache := wc'\<rparr>)
                            | Inr wc' \<Rightarrow> (Inr weather_data, w2\<lparr>weather_cache := wc'\<rparr>))))))"

definition get_weather_forecast ::
  "Config \<Rightarrow> (real \<Rightarrow> string) \<Rightarrow> clock \<Rightarrow> http_result \<Rightarrow> world \<Rightarrow> real \<Rightarrow> real \<Rightarrow> int \<Rightarrow> string
     \<Rightarrow> (exn + pyval) \<times> world" where
  "get_weather_forecast cfg str_of_float clk resp w lat lon days units =
     (let cache_key = ''forecast_'' @ str_of_float lat @ ''_'' @ str_of_float lon @ ''_''
                        @ str_of_int days @ ''_'' @ units in
      case TTLCache_get (forecast_cache w) cache_key (FORECAST_TTL cfg) (t_lookup clk) of
        Inl e \<Rightarrow> (Inl (Builtin e), w)
      | Inr (r, fc) \<Rightarrow>
          let w1 = w\<lparr>forecast_cache := fc\<rparr>; cached = returned r in
          if truthy cached then (Inr cached, w1)
          else
            (case RateLimiter_wait (rate_limiter w1) (t_wait clk) (t_woke clk) (t_admit clk) of
               (Inl e, rl) \<Rightarrow> (Inl (Builtin e), w1\<lparr>rate_limiter := rl\<rparr>)
             | (Inr slept, rl) \<Rightarrow>
                 let w2 = w1\<lparr>rate_limiter := rl, external_calls := Suc (external_calls w1)\<rparr> in
                 (case fetched resp of
                    Inl e \<Rightarrow> (Inl (weather_handler ForecastFailed (Builtin e)), w2)
                  | Inr data \<Rightarrow>
                      (case TTLCache_set (forecast_cache w2) cache_key data
                              (FORECAST_TTL cfg) (t_store clk) of
                         Inl (e, fc') \<Rightarrow>
                           (Inl (weather_handler ForecastFailed (Builtin e)),
                            w2\<lparr>forecast_cache := fc'\<rparr>)
                       | Inr fc' \<Rightarrow> (Inr data, w2\<lparr>forecast_cache := fc'\<rparr>)))))"

subsection \<open>Facts about the ordered dictionary\<close>

lemma od_contains_map_of: "od_contains d k \<longleftrightarrow> map_of d k \<noteq> None"
  by (simp add: od_contains_def map_of_eq_None_iff)

lemma move_to_end_present:
  "map_of d k = Some v \<Longrightarrow> move_to_end d k = Inr (AList.delete k d @ [(k, v)])"
  by (simp add: move_to_end_def)

lemma setitem_then_move:
  "move_to_end (od_setitem d k v) k = Inr (AList.delete k d @ [(k, v)])"
  by (simp add: move_to_end_def od_setitem_def update_conv' delete_update_same)

subsection \<open>What \<^verbatim>\<open>get\<close> computes\<close>

lemma remove_key_eq:
  "TTLCache_remove_key c key =
     c\<lparr>cache := AList.delete key (cache c), expirations := (expirations c)(key := None)\<rparr>"
  by (auto simp: TTLCache_remove_key_def Let_def od_contains_def od_delitem_def fun_upd_idem)

lemma get_eq:
  "TTLCache_get c key ttl now =
     (case map_of (cache c) key of
        None \<Rightarrow> Inr (None, c)
      | Some v \<Rightarrow>
          (case expirations c key of
             None \<Rightarrow> Inl KeyError
           | Some expiry \<Rightarrow>
               if now > expiry
               then Inr (None, c\<lparr>cache := AList.delete key (cache c),
                                  expirations := (expirations c)(key := None)\<rparr>)
               else Inr (Some v, c\<lparr>cache := AList.delete key (cache c) @ [(key, v)]\<rparr>)))"
  by (auto simp: TTLCache_get_def od_contains_map_of remove_key_eq move_to_end_present
                 map_add_def delete_conv' split: option.splits)

subsection \<open>The float range\<close>

lemma float_range_small: "\<bar>i\<bar> < 2 ^ 64 \<Longrightarrow> \<not> float_overflows i"
proof -
  assume a: "\<bar>i\<bar> < 2 ^ 64"
  have "(2::int) ^ 1024 = 2 ^ 970 * 2 ^ 54" by (simp flip: power_add)
  then have "(2::int) ^ 1024 - 2 ^ 970 = 2 ^ 970 * (2 ^ 54 - 1)" by (simp add: algebra_simps)
  moreover have "(2::int) ^ 64 \<le> 2 ^ 970" by (rule power_increasing) simp_all
  moreover have "(2::int) ^ 970 * 1 \<le> 2 ^ 970 * (2 ^ 54 - 1)"
    by (rule mult_left_mono) simp_all
  ultimately have "(2::int) ^ 64 \<le> 2 ^ 1024 - 2 ^ 970" by simp
  with a show ?thesis by (simp add: float_overflows_def)
qed

lemma float_overflows_big: "float_overflows (10 ^ 309)"
proof -
  have "(2::int) ^ 1024 \<le> 10 ^ 309"
  proof -
    have "(2::int) ^ 1024 = (2 ^ 93) ^ 11 * 2 ^ 1" by (simp flip: power_mult power_add)
    also have "\<dots> \<le> (10 ^ 28) ^ 11 * 10 ^ 1"
      by (intro mult_mono power_mono) simp_all
    also have "\<dots> = 10 ^ 309" by (simp flip: power_mult power_add)
    finally show ?thesis .
  qed
  then show ?thesis by (simp add: float_overflows_def)
qed

subsection \<open>What \<^verbatim>\<open>set\<close> computes\<close>

lemma update_then_move:
  "move_to_end (AList.update k v d) k = Inr (AList.delete k d @ [(k, v)])"
  by (simp add: move_to_end_def update_conv' delete_update_same)

lemma set_finish:
  "TTLCache_set c key val ttl now =
     (case (if int (length (cache c)) \<ge> max_items c \<and> \<not> od_contains (cache c) key
            then (case cache c of
                    [] \<Rightarrow> Inl (StopIteration, c)
                  | (oldest_key, _) # _ \<Rightarrow> Inr (TTLCache_remove_key c oldest_key))
            else Inr c) of
        Inl raised \<Rightarrow> Inl raised
      | Inr c1 \<Rightarrow>
          if float_overflows ttl
          then Inl (OverflowError, c1\<lparr>cache := AList.update key val (cache c1)\<rparr>)
          else Inr (c1\<lparr>cache := AList.delete key (cache c1) @ [(key, val)],
                      expirations := (expirations c1)(key \<mapsto> now + real_of_int ttl)\<rparr>))"
  by (simp add: TTLCache_set_def Let_def od_setitem_def update_then_move
           split: sum.splits)

lemma set_eq:
  "TTLCache_set c key val ttl now =
     (if int (length (cache c)) \<ge> max_items c \<and> \<not> od_contains (cache c) key
      then (if cache c = [] then Inl (StopIteration, c)
            else if float_overflows ttl
            then Inl (OverflowError,
                      c\<lparr>cache := AList.update key val (AList.delete (fst (hd (cache c))) (cache c)),
                        expirations := (expirations c)(fst (hd (cache c)) := None)\<rparr>)
            else Inr (c\<lparr>cache := AList.delete key (AList.delete (fst (hd (cache c))) (cache c))
                                   @ [(key, val)],
                        expirations :=
                          ((expirations c)(fst (hd (cache c)) := None))
                            (key \<mapsto> now + real_of_int ttl)\<rparr>))
      else if float_overflows ttl
           then Inl (OverflowError, c\<lparr>cache := AList.update key val (cache c)\<rparr>)
           else Inr (c\<lparr>cache := AList.delete key (cache c) @ [(key, val)],
                       expirations := (expirations c)(key \<mapsto> now + real_of_int ttl)\<rparr>))"
proof (cases "cache c")
  case Nil
  then show ?thesis by (simp add: set_finish)
next
  case (Cons p d)
  obtain k0 v0 where p: "p = (k0, v0)" by (cases p)
  from Cons p show ?thesis by (simp add: set_finish remove_key_eq)
qed

subsection \<open>Invariants of reachable caches\<close>

lemma keys_delete: "fst ` set (AList.delete k d) = fst ` set d - {k}"
  by (induction d) auto



lemma map_of_present: "map_of d k = Some v \<Longrightarrow> k \<in> fst ` set d"
  by (metis domI dom_map_of_conv_image_fst)











text \<open>The key sets agree as long as no \<^verbatim>\<open>set\<close> raised at line 94.\<close>

lemma consistent_init: "consistent (TTLCache_init m)"
  by (simp add: consistent_def TTLCache_init_def)

lemma consistent_delete:
  assumes "consistent c"
  shows "consistent (c\<lparr>cache := AList.delete k (cache c),
                        expirations := (expirations c)(k := None)\<rparr>)"
proof -
  from assms have d: "distinct (map fst (cache c))"
    and e: "fst ` set (cache c) = dom (expirations c)"
    by (simp_all add: consistent_def)
  show ?thesis
    using e by (simp add: consistent_def distinct_delete [OF d] keys_delete)
qed

lemma consistent_insert:
  assumes "consistent c"
  shows "consistent (c\<lparr>cache := AList.delete k (cache c) @ [(k, v)],
                        expirations := (expirations c)(k \<mapsto> e)\<rparr>)"
proof -
  from assms have d: "distinct (map fst (cache c))"
    and e: "fst ` set (cache c) = dom (expirations c)"
    by (simp_all add: consistent_def)
  show ?thesis
    using e by (auto simp: consistent_def distinct_delete [OF d] keys_delete)
qed

lemma consistent_refresh:
  assumes "consistent c" and "map_of (cache c) k = Some v"
  shows "consistent (c\<lparr>cache := AList.delete k (cache c) @ [(k, v)]\<rparr>)"
proof -
  from assms have d: "distinct (map fst (cache c))"
    and e: "fst ` set (cache c) = dom (expirations c)"
    by (simp_all add: consistent_def)
  from map_of_present [OF assms(2)] e show ?thesis
    by (auto simp: consistent_def distinct_delete [OF d] keys_delete)
qed

lemma consistent_get:
  assumes "consistent c" and "TTLCache_get c k ttl now = Inr (r, c')"
  shows "consistent c'"
  using assms consistent_delete [OF assms(1), where k = k] consistent_refresh [OF assms(1), where k = k]
  by (auto simp: get_eq split: option.splits if_splits)

lemma consistent_set:
  assumes "consistent c" and "TTLCache_set c k v ttl now = Inr c'"
  shows "consistent c'"
proof (cases "int (length (cache c)) \<ge> max_items c \<and> \<not> od_contains (cache c) k")
  case True
  let ?c1 = "c\<lparr>cache := AList.delete (fst (hd (cache c))) (cache c),
                 expirations := (expirations c)(fst (hd (cache c)) := None)\<rparr>"
  have "consistent ?c1" by (rule consistent_delete [OF assms(1)])
  from consistent_insert [OF this, where k = k and v = v and e = "now + real_of_int ttl"]
    assms(2) True
  show ?thesis by (simp add: set_eq split: if_splits)
next
  case False
  from consistent_insert [OF assms(1), where k = k and v = v and e = "now + real_of_int ttl"]
    assms(2) False
  show ?thesis by (auto simp: set_eq split: if_splits)
qed

lemma consistent_get_total:
  assumes "consistent c"
  shows "\<exists>r c'. TTLCache_get c k ttl now = Inr (r, c')"
proof (cases "map_of (cache c) k")
  case None
  then show ?thesis by (simp add: get_eq)
next
  case (Some v)
  from map_of_present [OF Some] assms obtain e where "expirations c k = Some e"
    by (auto simp: consistent_def)
  with Some show ?thesis by (simp add: get_eq)
qed

lemma set_raises_only_on_empty:
  assumes "\<not> float_overflows ttl" and "TTLCache_set c k v ttl now = Inl (e, c')"
  shows "e = StopIteration \<and> c' = c \<and> cache c = [] \<and> max_items c \<le> 0"
  using assms by (auto simp: set_eq split: if_splits)

lemma consistent_apply:
  assumes "consistent c" and "ttl_in_range op"
  shows "consistent (TTLCache_apply c op)"
proof (cases op)
  case (Get k ttl now)
  with assms(1) show ?thesis
    by (auto split: sum.splits prod.splits dest: consistent_get)
next
  case (Set k v ttl now)
  with assms show ?thesis
    by (auto split: sum.splits prod.splits dest: consistent_set set_raises_only_on_empty)
next
  case Clear
  then show ?thesis by (simp add: consistent_def TTLCache_clear_def)
qed

lemma consistent_run:
  "consistent c \<Longrightarrow> \<forall>op \<in> set ops. ttl_in_range op \<Longrightarrow> consistent (TTLCache_run c ops)"
  unfolding TTLCache_run_def
  by (induction ops arbitrary: c) (simp_all add: consistent_apply del: TTLCache_apply.simps)

subsection \<open>The dictionary lists its keys by their last use\<close>










subsection \<open>Operations on other keys\<close>

lemma other_key_step:
  assumes "\<not> on_key k op"
    and "(map_of (cache c) k = Some v \<and> expirations c k = Some e) \<or> map_of (cache c) k = None"
  shows "(map_of (cache (TTLCache_apply c op)) k = Some v \<and>
          expirations (TTLCache_apply c op) k = Some e) \<or>
         map_of (cache (TTLCache_apply c op)) k = None"
proof (cases op)
  case Clear
  with assms show ?thesis by simp
next
  case (Get k' ttl now)
  with assms show ?thesis
    by (auto simp: get_eq delete_conv' map_add_def split: option.splits)
next
  case (Set k' v' ttl now)
  with assms show ?thesis
    by (auto simp: set_eq delete_conv' update_conv' map_add_def split: option.splits)
qed

lemma other_key_run:
  assumes "\<forall>op \<in> set ops. \<not> on_key k op"
    and "(map_of (cache c) k = Some v \<and> expirations c k = Some e) \<or> map_of (cache c) k = None"
  shows "(map_of (cache (TTLCache_run c ops)) k = Some v \<and>
          expirations (TTLCache_run c ops) k = Some e) \<or>
         map_of (cache (TTLCache_run c ops)) k = None"
  using assms unfolding TTLCache_run_def
proof (induction ops arbitrary: c)
  case Nil
  then show ?case by simp
next
  case (Cons op ops)
  from Cons.prems have "\<not> on_key k op" by simp
  from other_key_step [OF this Cons.prems(2)] Cons.prems(1) Cons.IH [of "TTLCache_apply c op"]
  show ?case by (simp del: TTLCache_apply.simps)
qed

lemma get_other_key_step:
  assumes "k' \<noteq> k" and "od_contains (cache c) k"
  shows "od_contains (cache (TTLCache_apply c (Get k' ttl now))) k"
  using assms
  by (auto simp: get_eq od_contains_map_of delete_conv' map_add_def split: option.splits)

lemma get_other_key_run:
  assumes "\<forall>op \<in> set ops. is_get op \<and> \<not> on_key k op" and "od_contains (cache c) k"
  shows "od_contains (cache (TTLCache_run c ops)) k"
  using assms unfolding TTLCache_run_def
proof (induction ops arbitrary: c)
  case Nil
  then show ?case by simp
next
  case (Cons op ops)
  from Cons.prems(1) obtain k' ttl now where op: "op = Get k' ttl now" and "k' \<noteq> k"
    by (cases op) auto
  from get_other_key_step [OF this(2) Cons.prems(2), of ttl now] op Cons.prems(1)
    Cons.IH [of "TTLCache_apply c op"]
  show ?case by (simp del: TTLCache_apply.simps)
qed

lemma set_other_key_step:
  assumes "k' \<noteq> k" and "od_contains (cache c) k"
    and "\<not> (max_items c \<le> TTLCache_size c \<and> \<not> od_contains (cache c) k' \<and>
            (\<exists>w rest. cache c = (k, w) # rest))"
  shows "od_contains (cache (TTLCache_apply c (Set k' v' ttl now))) k"
proof (cases "cache c")
  case Nil
  with assms(2) show ?thesis by (simp add: od_contains_def)
next
  case (Cons p rest)
  obtain k0 w where p: "p = (k0, w)" by (cases p)
  from assms Cons p show ?thesis
    by (auto simp: set_eq od_contains_map_of delete_conv' update_conv' map_add_def
                   TTLCache_size_def split: option.splits if_splits)
qed

lemma set_other_key_evicts:
  assumes "k' \<noteq> k" and "max_items c \<le> TTLCache_size c" and "\<not> od_contains (cache c) k'"
    and "cache c = (k, w) # rest"
  shows "\<not> od_contains (cache (TTLCache_apply c (Set k' v' ttl now))) k"
  using assms
  by (auto simp: set_eq od_contains_map_of delete_conv' update_conv' map_add_def
                 TTLCache_size_def split: option.splits if_splits)

lemma get_hit_moves_to_end:
  assumes "TTLCache_get s k ttl now = Inr (Some v, s')"
  shows "cache s' = AList.delete k (cache s) @ [(k, v)]"
  using assms by (auto simp: get_eq split: option.splits if_splits)

lemma set_evicts_oldest:
  assumes "distinct (map fst (cache c))" and "cache c = (k0, v0) # rest"
    and "TTLCache_size c \<ge> max_items c" and "\<not> od_contains (cache c) k"
  shows "TTLCache_set c k v ttl now =
           (if float_overflows ttl
            then Inl (OverflowError,
                      c\<lparr>cache := rest @ [(k, v)], expirations := (expirations c)(k0 := None)\<rparr>)
            else Inr (c\<lparr>cache := rest @ [(k, v)],
                        expirations := (expirations c)(k0 := None, k \<mapsto> now + real_of_int ttl)\<rparr>))"
proof -
  from assms(1,2) have "k0 \<notin> fst ` set rest" by auto
  moreover from assms(2,4) have k: "k \<notin> fst ` set rest" by (auto simp: od_contains_def)
  moreover from k have "AList.update k v rest = rest @ [(k, v)]"
    by (induction rest) auto
  ultimately show ?thesis using assms(2,3,4)
    by (simp add: set_eq TTLCache_size_def)
qed

lemma lru_scenario:
  assumes "a \<noteq> b" "a \<noteq> c" "b \<noteq> c" and "t3 \<le> t1 + real_of_int ttl_a"
    and "\<not> float_overflows ttl_a" "\<not> float_overflows ttl_b" "\<not> float_overflows ttl_c"
  shows "\<exists>c1 c2 c3 c4.
           TTLCache_set (TTLCache_init 2) a va ttl_a t1 = Inr c1 \<and>
           TTLCache_set c1 b vb ttl_b t2 = Inr c2 \<and>
           TTLCache_get c2 a ttl' t3 = Inr (Some va, c3) \<and>
           TTLCache_set c3 c vc ttl_c t4 = Inr c4 \<and>
           cache c2 = [(a, va), (b, vb)] \<and> cache c3 = [(b, vb), (a, va)] \<and>
           cache c4 = [(a, va), (c, vc)] \<and> expirations c4 b = None"
proof -
  let ?c1 = "\<lparr>max_items = 2, cache = [(a, va)],
              expirations = [a \<mapsto> t1 + real_of_int ttl_a]\<rparr>"
  let ?c2 = "\<lparr>max_items = 2, cache = [(a, va), (b, vb)],
              expirations = [a \<mapsto> t1 + real_of_int ttl_a, b \<mapsto> t2 + real_of_int ttl_b]\<rparr>"
  let ?c3 = "\<lparr>max_items = 2, cache = [(b, vb), (a, va)],
              expirations = [a \<mapsto> t1 + real_of_int ttl_a, b \<mapsto> t2 + real_of_int ttl_b]\<rparr>"
  let ?c4 = "\<lparr>max_items = 2, cache = [(a, va), (c, vc)],
              expirations = [a \<mapsto> t1 + real_of_int ttl_a, b \<mapsto> t2 + real_of_int ttl_b]
                              (b := None, c \<mapsto> t4 + real_of_int ttl_c)\<rparr>"
  have 1: "TTLCache_set (TTLCache_init 2) a va ttl_a t1 = Inr ?c1"
    using assms(5) by (simp add: set_eq TTLCache_init_def od_contains_def)
  have 2: "TTLCache_set ?c1 b vb ttl_b t2 = Inr ?c2"
    using assms(1,6) by (simp add: set_eq od_contains_def)
  have 3: "TTLCache_get ?c2 a ttl' t3 = Inr (Some va, ?c3)"
    using assms(1,4) by (simp add: get_eq)
  have 4: "TTLCache_set ?c3 c vc ttl_c t4 = Inr ?c4"
    using assms(1,2,3,7) by (simp add: set_eq od_contains_def)
  have 5: "expirations ?c4 b = None"
    using assms(3) by simp
  from 1 2 3 4 5 show ?thesis by (intro exI conjI) (assumption | simp)+
qed



lemma set_overflow_on_fresh:
  assumes "float_overflows ttl" and "1 \<le> m"
  shows "TTLCache_set (TTLCache_init m) k v ttl now
           = Inl (OverflowError, \<lparr>max_items = m, cache = [(k, v)], expirations = Map.empty\<rparr>)"
  using assms by (simp add: set_eq TTLCache_init_def od_contains_def)

subsection \<open>Claims about \<^verbatim>\<open>TTLCache\<close>\<close>

text \<open>
  C4. The ttl argument of \<^verbatim>\<open>get\<close> is never read: two calls in the same state at the same
  time with different ttl arguments return the same result and the same cache. Expiry is
  decided by the expiration recorded by \<^verbatim>\<open>set\<close>: after \<^verbatim>\<open>set(k, v, t)\<close> at time \<open>s\<close> a
  \<^verbatim>\<open>get\<close> at time \<open>now\<close> treats the entry as expired exactly when \<open>now > s + t\<close>, whatever
  ttl it is given.
\<close>

theorem get_ttl_argument_ignored:
  "TTLCache_get (c :: ('k, 'v) TTLCache) k o1 now = TTLCache_get c k o2 now \<and>
   (TTLCache_set c0 k (v :: 'v) t s = Inr c1 \<longrightarrow>
      (\<exists>c2. TTLCache_get c1 k o1 now
               = Inr (if now > s + real_of_int t then None else Some v, c2)))"
proof
  show "TTLCache_get c k o1 now = TTLCache_get c k o2 now"
    by (simp add: TTLCache_get_def)
next
  show "TTLCache_set c0 k v t s = Inr c1 \<longrightarrow>
      (\<exists>c2. TTLCache_get c1 k o1 now
               = Inr (if now > s + real_of_int t then None else Some v, c2))"
  proof
    assume "TTLCache_set c0 k v t s = Inr c1"
    then have "map_of (cache c1) k = Some v" "expirations c1 k = Some (s + real_of_int t)"
      by (auto simp: set_eq map_add_def delete_conv' split: if_splits)
    then show "\<exists>c2. TTLCache_get c1 k o1 now
               = Inr (if now > s + real_of_int t then None else Some v, c2)"
      by (simp add: get_eq)
  qed
qed

theorem get_ttl_argument_ignored_witness:
  "TTLCache_get (TTLCache_init 2 :: (nat, nat) TTLCache) 1 300 5 = TTLCache_get (TTLCache_init 2) 1 1 5 \<and>
   TTLCache_set (TTLCache_init 2) (1::nat) (7::nat) 10 0
     = Inr \<lparr>max_items = 2, cache = [(1, 7)], expirations = [1 \<mapsto> 10]\<rparr> \<and>
   TTLCache_get \<lparr>max_items = 2, cache = [(1::nat, 7::nat)], expirations = [1 \<mapsto> 10]\<rparr> 1 300 5
     = Inr (Some 7, \<lparr>max_items = 2, cache = [(1, 7)], expirations = [1 \<mapsto> 10]\<rparr>)"
proof -
  have s: "TTLCache_set (TTLCache_init 2) (1::nat) (7::nat) 10 0
     = Inr \<lparr>max_items = 2, cache = [(1, 7)], expirations = [1 \<mapsto> 10]\<rparr>"
    by (simp add: set_eq TTLCache_init_def od_contains_def float_range_small)
  show ?thesis
    using get_ttl_argument_ignored
      [of "TTLCache_init 2 :: (nat, nat) TTLCache" 1 300 5 1 "TTLCache_init 2" 7 10 0
          "\<lparr>max_items = 2, cache = [(1, 7)], expirations = [1 \<mapsto> 10]\<rparr>"] s
    by (simp add: get_eq)
qed

text \<open>
  C1 (as amended). After \<^verbatim>\<open>set(k, v, t)\<close> has returned at time \<open>storedAt\<close>, let any
  operations follow that are not on \<open>k\<close> (gets and sets of other keys). As long as \<open>k\<close> is
  still in the cache, \<^verbatim>\<open>get(k)\<close> returns \<open>v\<close> at every time \<open>now \<le> storedAt + t\<close>, the exact
  instant \<open>storedAt + t\<close> included, and at every time \<open>now > storedAt + t\<close> it returns
  \<^verbatim>\<open>None\<close> and purges the entry from both structures, after which every \<^verbatim>\<open>get(k)\<close> is a
  miss that leaves the cache alone. Once \<open>k\<close> is no longer in the cache, \<^verbatim>\<open>get(k)\<close> is a miss
  at every time. A get of another key never removes the entry; a set of another key removes
  it exactly when that key is new, the cache is at capacity and \<open>k\<close> is at the head of the
  recency order. The test of line 78 is \<^verbatim>\<open>time.time() > self.expirations[key]\<close>.
\<close>

theorem ttl_expiry_boundary:
  assumes "TTLCache_set c0 k v t storedAt = Inr c1"
    and "\<forall>op \<in> set ops. \<not> on_key k op"
    and "c2 = TTLCache_run c1 ops"
  shows "(od_contains (cache c2) k \<longrightarrow>
            (now \<le> storedAt + real_of_int t \<longrightarrow>
               (\<exists>c'. TTLCache_get c2 k ttl' now = Inr (Some v, c'))) \<and>
            (storedAt + real_of_int t < now \<longrightarrow>
               (\<exists>c'. TTLCache_get c2 k ttl' now = Inr (None, c') \<and>
                     \<not> od_contains (cache c') k \<and> expirations c' k = None \<and>
                     (\<forall>ttl'' now'. TTLCache_get c' k ttl'' now' = Inr (None, c'))))) \<and>
         (\<not> od_contains (cache c2) k \<longrightarrow> TTLCache_get c2 k ttl' now = Inr (None, c2)) \<and>
         ((\<forall>op \<in> set ops. is_get op) \<longrightarrow> od_contains (cache c2) k) \<and>
         (\<forall>k' ttl'' now'.
            k' \<noteq> k \<and> od_contains (cache c2) k \<longrightarrow>
            od_contains (cache (TTLCache_apply c2 (Get k' ttl'' now'))) k) \<and>
         (\<forall>k' v' t' now'.
            k' \<noteq> k \<and> od_contains (cache c2) k \<longrightarrow>
            (od_contains (cache (TTLCache_apply c2 (Set k' v' t' now'))) k \<longleftrightarrow>
             \<not> (max_items c2 \<le> TTLCache_size c2 \<and> \<not> od_contains (cache c2) k' \<and>
                 (\<exists>w rest. cache c2 = (k, w) # rest))))"
proof -
  from assms(1) have m1: "map_of (cache c1) k = Some v"
    and e1: "expirations c1 k = Some (storedAt + real_of_int t)"
    by (auto simp: set_eq map_add_def delete_conv' split: if_splits)
  from other_key_run [OF assms(2), of c1 v "storedAt + real_of_int t"] m1 e1 assms(3)
  have kept: "(map_of (cache c2) k = Some v \<and> expirations c2 k = Some (storedAt + real_of_int t))
              \<or> map_of (cache c2) k = None"
    by simp
  have absent: "map_of (AList.delete k (cache c2)) k = None"
    by (simp add: delete_conv')
  have here: "(now \<le> storedAt + real_of_int t \<longrightarrow>
               (\<exists>c'. TTLCache_get c2 k ttl' now = Inr (Some v, c'))) \<and>
            (storedAt + real_of_int t < now \<longrightarrow>
               (\<exists>c'. TTLCache_get c2 k ttl' now = Inr (None, c') \<and>
                     \<not> od_contains (cache c') k \<and> expirations c' k = None \<and>
                     (\<forall>ttl'' now'. TTLCache_get c' k ttl'' now' = Inr (None, c'))))"
    if present: "od_contains (cache c2) k"
  proof -
    from present kept have m: "map_of (cache c2) k = Some v"
      and e: "expirations c2 k = Some (storedAt + real_of_int t)"
      by (auto simp: od_contains_map_of)
    from m e absent show ?thesis by (simp add: get_eq od_contains_map_of)
  qed
  have gone: "TTLCache_get c2 k ttl' now = Inr (None, c2)" if "\<not> od_contains (cache c2) k"
    using that by (simp add: TTLCache_get_def)
  have gets: "od_contains (cache c2) k" if "\<forall>op \<in> set ops. is_get op"
  proof -
    from that assms(2) have "\<forall>op \<in> set ops. is_get op \<and> \<not> on_key k op" by simp
    from get_other_key_run [OF this, of c1] m1 assms(3) show ?thesis
      by (simp add: od_contains_map_of)
  qed
  have get1: "od_contains (cache (TTLCache_apply c2 (Get k' ttl'' now'))) k"
    if "k' \<noteq> k \<and> od_contains (cache c2) k" for k' ttl'' now'
    using that get_other_key_step [of k' k c2 ttl'' now'] by blast
  have sets: "od_contains (cache (TTLCache_apply c2 (Set k' v' t' now'))) k \<longleftrightarrow>
             \<not> (max_items c2 \<le> TTLCache_size c2 \<and> \<not> od_contains (cache c2) k' \<and>
                 (\<exists>w rest. cache c2 = (k, w) # rest))"
    if "k' \<noteq> k \<and> od_contains (cache c2) k" for k' v' t' now'
    using that set_other_key_step [of k' k c2 v' t' now']
          set_other_key_evicts [of k' k c2 _ _ v' t' now'] by blast
  from here gone gets get1 sets show ?thesis by blast
qed

theorem ttl_expiry_boundary_witness:
  "TTLCache_set (TTLCache_init 2) (1::nat) (7::nat) 10 0
     = Inr \<lparr>max_items = 2, cache = [(1, 7)], expirations = [1 \<mapsto> 10]\<rparr> \<and>
   TTLCache_run \<lparr>max_items = 2, cache = [(1::nat, 7::nat)], expirations = [1 \<mapsto> 10]\<rparr>
       [Get 2 300 1, Get 3 300 2]
     = \<lparr>max_items = 2, cache = [(1, 7)], expirations = [1 \<mapsto> 10]\<rparr> \<and>
   TTLCache_get \<lparr>max_items = 2, cache = [(1::nat, 7::nat)], expirations = [1 \<mapsto> 10]\<rparr> 1 300 3
     = Inr (Some 7, \<lparr>max_items = 2, cache = [(1, 7)], expirations = [1 \<mapsto> 10]\<rparr>) \<and>
   TTLCache_get \<lparr>max_items = 2, cache = [(1::nat, 7::nat)], expirations = [1 \<mapsto> 10]\<rparr> 1 300 11
     = Inr (None, \<lparr>max_items = 2, cache = [], expirations = Map.empty\<rparr>) \<and>
   TTLCache_apply \<lparr>max_items = 2, cache = [(1::nat, 7::nat)], expirations = [1 \<mapsto> 10]\<rparr>
       (Set 2 8 10 3)
     = \<lparr>max_items = 2, cache = [(1, 7), (2, 8)], expirations = [1 \<mapsto> 10, 2 \<mapsto> 13]\<rparr> \<and>
   TTLCache_set (TTLCache_init 1) (1::nat) (7::nat) 10 0
     = Inr \<lparr>max_items = 1, cache = [(1, 7)], expirations = [1 \<mapsto> 10]\<rparr> \<and>
   TTLCache_run \<lparr>max_items = 1, cache = [(1::nat, 7::nat)], expirations = [1 \<mapsto> 10]\<rparr>
       [Set 2 8 10 1]
     = \<lparr>max_items = 1, cache = [(2, 8)], expirations = [2 \<mapsto> 11]\<rparr> \<and>
   TTLCache_get \<lparr>max_items = 1, cache = [(2::nat, 8::nat)], expirations = [2 \<mapsto> 11]\<rparr> 1 300 2
     = Inr (None, \<lparr>max_items = 1, cache = [(2, 8)], expirations = [2 \<mapsto> 11]\<rparr>)"
proof -
  have s2: "TTLCache_set (TTLCache_init 2) (1::nat) (7::nat) 10 0
     = Inr \<lparr>max_items = 2, cache = [(1, 7)], expirations = [1 \<mapsto> 10]\<rparr>"
    by (simp add: set_eq TTLCache_init_def od_contains_def float_range_small)
  have s1: "TTLCache_set (TTLCache_init 1) (1::nat) (7::nat) 10 0
     = Inr \<lparr>max_items = 1, cache = [(1, 7)], expirations = [1 \<mapsto> 10]\<rparr>"
    by (simp add: set_eq TTLCache_init_def od_contains_def float_range_small)
  show ?thesis
    using s1 s2
      ttl_expiry_boundary [OF s2, where ops = "[Get 2 300 1, Get 3 300 2]" and now = 3
                             and ttl' = 300, OF _ refl]
      ttl_expiry_boundary [OF s2, where ops = "[Get 2 300 1, Get 3 300 2]" and now = 11
                             and ttl' = 300, OF _ refl]
      ttl_expiry_boundary [OF s1, where ops = "[Set 2 8 10 1]" and now = 2
                             and ttl' = 300, OF _ refl]
    by (simp add: TTLCache_run_def get_eq set_eq od_contains_def float_range_small)
qed

text \<open>
  The claim as first stated fails in two ways. Stored at time 0 with ttl 10, the entry is
  still returned at time 10. And with room for one entry, a set of another key at time 1
  evicts it: \<^verbatim>\<open>get\<close> at time 2, long before the expiry, is a miss.
\<close>

theorem ttl_expiry_boundary_counterexample:
  "TTLCache_set (TTLCache_init 2) (1::nat) (7::nat) 10 0
     = Inr \<lparr>max_items = 2, cache = [(1, 7)], expirations = [1 \<mapsto> 10]\<rparr> \<and>
   TTLCache_get \<lparr>max_items = 2, cache = [(1::nat, 7::nat)], expirations = [1 \<mapsto> 10]\<rparr> 1 10 (0 + 10)
     = Inr (Some 7, \<lparr>max_items = 2, cache = [(1, 7)], expirations = [1 \<mapsto> 10]\<rparr>) \<and>
   TTLCache_set (TTLCache_init 1) (1::nat) (7::nat) 10 0
     = Inr \<lparr>max_items = 1, cache = [(1, 7)], expirations = [1 \<mapsto> 10]\<rparr> \<and>
   TTLCache_set \<lparr>max_items = 1, cache = [(1::nat, 7::nat)], expirations = [1 \<mapsto> 10]\<rparr> 2 8 10 1
     = Inr \<lparr>max_items = 1, cache = [(2, 8)], expirations = [2 \<mapsto> 11]\<rparr> \<and>
   TTLCache_get \<lparr>max_items = 1, cache = [(2::nat, 8::nat)], expirations = [2 \<mapsto> 11]\<rparr> 1 10 2
     = Inr (None, \<lparr>max_items = 1, cache = [(2, 8)], expirations = [2 \<mapsto> 11]\<rparr>)"
  by (simp add: set_eq get_eq TTLCache_init_def od_contains_def float_range_small)



text \<open>
  C10. The key sets do not always agree: \<^verbatim>\<open>set\<close> writes \<^verbatim>\<open>self.cache[key]\<close> at line 93 and
  only then evaluates \<^verbatim>\<open>time.time() + ttl\<close>, which raises OverflowError for an int beyond
  the float range. On a fresh cache \<^verbatim>\<open>set(k, v, 10**309)\<close> leaves \<open>k\<close> in the dictionary and
  not in the expiration map, and the next \<^verbatim>\<open>get(k)\<close> raises KeyError at line 78. (As long as
  no \<^verbatim>\<open>set\<close> is given such a ttl the key sets agree and \<^verbatim>\<open>get\<close> never raises:
  \<open>consistent_run\<close>, \<open>consistent_get_total\<close>.)
\<close>

theorem overflowing_ttl_breaks_agreement:
  "TTLCache_set (TTLCache_init 1000) k v (10 ^ 309) now
     = Inl (OverflowError, \<lparr>max_items = 1000, cache = [(k, v)], expirations = Map.empty\<rparr>) \<and>
   TTLCache_run (TTLCache_init 1000) [Set k v (10 ^ 309) now]
     = \<lparr>max_items = 1000, cache = [(k, v)], expirations = Map.empty\<rparr> \<and>
   TTLCache_get \<lparr>max_items = 1000, cache = [(k, v)], expirations = Map.empty\<rparr> k ttl' now'
     = Inl KeyError"
proof -
  have s: "TTLCache_set (TTLCache_init 1000) k v (10 ^ 309) now
     = Inl (OverflowError, \<lparr>max_items = 1000, cache = [(k, v)], expirations = Map.empty\<rparr>)"
    by (rule set_overflow_on_fresh [OF float_overflows_big]) simp
  have r: "TTLCache_run (TTLCache_init 1000) [Set k v (10 ^ 309) now]
     = \<lparr>max_items = 1000, cache = [(k, v)], expirations = Map.empty\<rparr>"
    unfolding TTLCache_run_def foldl.simps TTLCache_apply.simps s by simp
  have g: "TTLCache_get \<lparr>max_items = 1000, cache = [(k, v)], expirations = Map.empty\<rparr> k ttl' now'
     = Inl KeyError"
    by (simp add: get_eq)
  from s r g show ?thesis by (intro conjI)
qed

text \<open>
  C3. With \<open>max_items = 2\<close> and distinct keys \<open>a\<close>, \<open>b\<close>, \<open>c\<close>, the calls \<^verbatim>\<open>set(a)\<close>,
  \<^verbatim>\<open>set(b)\<close>, \<^verbatim>\<open>get(a)\<close> (while \<open>a\<close> is unexpired), \<^verbatim>\<open>set(c)\<close> on a fresh cache, with ttls
  within the float range so that the calls return, evict exactly \<open>b\<close> and leave \<open>a\<close> and
  \<open>c\<close>. In general a \<^verbatim>\<open>get\<close> that returns a value moves its key to the most-recently-used
  end, and a \<^verbatim>\<open>set\<close> of a new key at full capacity removes the head of the recency order,
  also when it then raises at line 94; no expiration time is consulted for that choice.
\<close>

theorem lru_eviction_order:
  "(a \<noteq> b \<and> a \<noteq> c \<and> b \<noteq> c \<and> t3 \<le> t1 + real_of_int ttl_a \<and>
    \<not> float_overflows ttl_a \<and> \<not> float_overflows ttl_b \<and> \<not> float_overflows ttl_c \<longrightarrow>
      (\<exists>c1 c2 c3 c4.
           TTLCache_set (TTLCache_init 2) a va ttl_a t1 = Inr c1 \<and>
           TTLCache_set c1 b vb ttl_b t2 = Inr c2 \<and>
           TTLCache_get c2 a ttl' t3 = Inr (Some va, c3) \<and>
           TTLCache_set c3 c vc ttl_c t4 = Inr c4 \<and>
           cache c2 = [(a, va), (b, vb)] \<and> cache c3 = [(b, vb), (a, va)] \<and>
           cache c4 = [(a, va), (c, vc)] \<and> expirations c4 b = None)) \<and>
   (TTLCache_get s k ttl now = Inr (Some v, s') \<longrightarrow>
      cache s' = AList.delete k (cache s) @ [(k, v)] \<and> last (cache s') = (k, v)) \<and>
   (distinct (map fst (cache u)) \<and> cache u = (k0, v0) # rest \<and>
    TTLCache_size u \<ge> max_items u \<and> \<not> od_contains (cache u) kn \<longrightarrow>
      TTLCache_set u kn vn ttln nown =
        (if float_overflows ttln
         then Inl (OverflowError,
                   u\<lparr>cache := rest @ [(kn, vn)], expirations := (expirations u)(k0 := None)\<rparr>)
         else Inr (u\<lparr>cache := rest @ [(kn, vn)],
                     expirations := (expirations u)(k0 := None, kn \<mapsto> nown + real_of_int ttln)\<rparr>)))"
  using lru_scenario [of a b c t3 t1 ttl_a ttl_b ttl_c va vb t2 ttl' vc t4]
        get_hit_moves_to_end [of s k ttl now v s']
        set_evicts_oldest [of u k0 v0 rest kn vn ttln nown]
  by auto

theorem lru_eviction_order_witness:
  "TTLCache_set (TTLCache_init 2) ''a'' (1::nat) 300 0
     = Inr \<lparr>max_items = 2, cache = [(''a'', 1)], expirations = [''a'' \<mapsto> 300]\<rparr> \<and>
   TTLCache_set \<lparr>max_items = 2, cache = [(''a'', 1::nat)], expirations = [''a'' \<mapsto> 300]\<rparr>
       ''b'' 2 300 1
     = Inr \<lparr>max_items = 2, cache = [(''a'', 1), (''b'', 2)],
            expirations = [''a'' \<mapsto> 300, ''b'' \<mapsto> 301]\<rparr> \<and>
   TTLCache_get \<lparr>max_items = 2, cache = [(''a'', 1::nat), (''b'', 2)],
                 expirations = [''a'' \<mapsto> 300, ''b'' \<mapsto> 301]\<rparr> ''a'' 300 2
     = Inr (Some 1, \<lparr>max_items = 2, cache = [(''b'', 2), (''a'', 1)],
                     expirations = [''a'' \<mapsto> 300, ''b'' \<mapsto> 301]\<rparr>) \<and>
   TTLCache_set \<lparr>max_items = 2, cache = [(''b'', 2::nat), (''a'', 1)],
                 expirations = [''a'' \<mapsto> 300, ''b'' \<mapsto> 301]\<rparr> ''c'' 3 300 3
     = Inr \<lparr>max_items = 2, cache = [(''a'', 1), (''c'', 3)],
            expirations = [''a'' \<mapsto> 300, ''c'' \<mapsto> 303]\<rparr>"
  using lru_eviction_order
    [where a = "''a''" and b = "''b''" and c = "''c''" and ?t1.0 = 0 and ?t2.0 = 1
       and ?t3.0 = 2 and ?t4.0 = 3 and ttl_a = 300 and ttl_b = 300 and ttl_c = 300
       and ttl' = 300 and va = "1::nat" and vb = 2 and vc = 3
       and s = "\<lparr>max_items = 2, cache = [(''a'', 1::nat), (''b'', 2)],
                  expirations = [''a'' \<mapsto> 300, ''b'' \<mapsto> 301]\<rparr>"
       and k = "''a''" and ttl = 300 and now = 2 and v = 1
       and s' = "\<lparr>max_items = 2, cache = [(''b'', 2::nat), (''a'', 1)],
                   expirations = [''a'' \<mapsto> 300, ''b'' \<mapsto> 301]\<rparr>"
       and u = "\<lparr>max_items = 2, cache = [(''b'', 2::nat), (''a'', 1)],
                  expirations = [''a'' \<mapsto> 300, ''b'' \<mapsto> 301]\<rparr>"
       and ?k0.0 = "''b''" and ?v0.0 = 2 and rest = "[(''a'', 1)]" and kn = "''c''"
       and vn = 3 and ttln = 300 and nown = 3]
  by (simp add: set_eq get_eq TTLCache_init_def od_contains_def TTLCache_size_def fun_upd_twist
                float_range_small)

subsection \<open>Facts about the rate limiter\<close>

lemma popleft_expired_split:
  "\<exists>dropped. es = dropped @ popleft_expired es c \<and> (\<forall>e \<in> set dropped. e < c)"
proof (induction es)
  case Nil
  show ?case by simp
next
  case (Cons a es)
  show ?case
  proof (cases "a < c")
    case True
    from Cons obtain dropped where "es = dropped @ popleft_expired es c"
      and "\<forall>e \<in> set dropped. e < c" by blast
    with True have "a # es = (a # dropped) @ popleft_expired (a # es) c \<and>
        (\<forall>e \<in> set (a # dropped). e < c)" by simp
    then show ?thesis by blast
  next
    case False
    then have "a # es = [] @ popleft_expired (a # es) c \<and> (\<forall>e \<in> set []. e < c)"
      by simp
    then show ?thesis by blast
  qed
qed

lemma popleft_expired_length: "length (popleft_expired es c) \<le> length es"
  by (induction es) auto

lemma popleft_expired_head: "popleft_expired es c = e0 # r \<Longrightarrow> \<not> e0 < c"
  by (induction es) (auto split: if_splits)

lemma py_int_pos: "1 \<le> x \<Longrightarrow> 1 \<le> py_int x"
  by (simp add: py_int_def le_floor_iff)

text \<open>One call of wait under the bound.\<close>

lemma wait_step:
  assumes r: "1 \<le> rps rl" and w: "0 < window_sec rl"
    and len: "int (length (events rl)) \<le> py_int (rps rl)"
    and ck: "clock_ok rl t0 ((t1, t2, t3) # cs)"
    and ob: "off_boundary rl ((t1, t2, t3) # cs)"
  shows "\<exists>slept rl' dropped.
           RateLimiter_wait rl t1 t2 t3 = (Inr slept, rl') \<and>
           rps rl' = rps rl \<and> window_sec rl' = window_sec rl \<and>
           events rl @ [t3] = dropped @ events rl' \<and>
           (\<forall>e \<in> set dropped. e < t3 - window_sec rl) \<and>
           int (length (events rl')) \<le> py_int (rps rl)"
proof -
  let ?w = "window_sec rl"
  let ?ev1 = "popleft_expired (events rl) (t1 - ?w)"
  from ck have t13: "t1 \<le> t3" by simp
  from popleft_expired_split [of "events rl" "t1 - ?w"]
  obtain d1 where d1: "events rl = d1 @ ?ev1" and d1lt: "\<forall>e \<in> set d1. e < t1 - ?w"
    by blast
  have len1: "length ?ev1 \<le> length (events rl)" by (rule popleft_expired_length)
  from r have pos: "\<not> rps rl \<le> 0" by simp
  from py_int_pos [OF r] have m1: "1 \<le> py_int (rps rl)" .
  show ?thesis
  proof (cases "int (length ?ev1) \<ge> py_int (rps rl)")
    case False
    then have "RateLimiter_wait rl t1 t2 t3 = (Inr None, rl\<lparr>events := ?ev1 @ [t3]\<rparr>)"
      using pos by (simp add: RateLimiter_wait_def Let_def)
    moreover have "events rl @ [t3] = d1 @ (?ev1 @ [t3])" using d1 by simp
    moreover have "\<forall>e \<in> set d1. e < t3 - ?w" using d1lt t13 by auto
    moreover have "int (length (?ev1 @ [t3])) \<le> py_int (rps rl)" using False by simp
    ultimately show ?thesis by (intro exI [of _ None] exI [of _ "rl\<lparr>events := ?ev1 @ [t3]\<rparr>"] exI [of _ d1]) simp
  next
    case True
    with m1 obtain e0 es where ev1: "?ev1 = e0 # es" by (cases ?ev1) auto
    from popleft_expired_head [OF ev1] have ge: "t1 - ?w \<le> e0" by simp
    from ob ev1 True have nb: "t1 \<noteq> e0 + ?w" "t2 \<noteq> e0 + ?w" by simp_all
    with ge have sl: "e0 + ?w - t1 > 0" by simp
    let ?ev2 = "popleft_expired ?ev1 (t2 - ?w)"
    have res: "RateLimiter_wait rl t1 t2 t3 =
        (Inr (Some (e0 + ?w - t1)), rl\<lparr>events := ?ev2 @ [t3]\<rparr>)"
      using pos True ev1 sl by (simp add: RateLimiter_wait_def Let_def)
    with ck have t2: "e0 + ?w \<le> t2" "t2 \<le> t3" by simp_all
    with nb have lt: "e0 < t2 - ?w" by simp
    from popleft_expired_split [of ?ev1 "t2 - ?w"]
    obtain d2 where d2: "?ev1 = d2 @ ?ev2" and d2lt: "\<forall>e \<in> set d2. e < t2 - ?w"
      by blast
    have "?ev2 = popleft_expired es (t2 - ?w)" using ev1 lt by simp
    then have "length ?ev2 \<le> length es" by (simp add: popleft_expired_length)
    with ev1 len1 len have l2: "int (length (?ev2 @ [t3])) \<le> py_int (rps rl)" by simp
    have "events rl @ [t3] = (d1 @ d2) @ (?ev2 @ [t3])" using d1 d2 by simp
    moreover have "\<forall>e \<in> set (d1 @ d2). e < t3 - ?w" using d1lt d2lt t13 t2 by auto
    ultimately show ?thesis using res l2
      by (intro exI [of _ "Some (e0 + ?w - t1)"] exI [of _ "rl\<lparr>events := ?ev2 @ [t3]\<rparr>"]
                exI [of _ "d1 @ d2"]) simp
  qed
qed

lemma py_int_ge_1: "1 \<le> py_int x \<Longrightarrow> 1 \<le> x"
  by (auto simp: py_int_def le_floor_iff split: if_splits)

lemma clock_ok_last: "clock_ok rl t0 cs \<Longrightarrow> t0 \<le> last (t0 # admissions cs)"
proof (induction cs arbitrary: rl t0)
  case Nil
  show ?case by simp
next
  case (Cons c cs)
  obtain t1 t2 t3 where c: "c = (t1, t2, t3)" by (cases c)
  from Cons.prems c have "t0 \<le> t3"
    and "clock_ok (snd (RateLimiter_wait rl t1 t2 t3)) t3 cs" by simp_all
  from this(1) Cons.IH [OF this(2)] c show ?case by simp
qed

lemma run_bound:
  assumes "1 \<le> rps rl" and "0 < window_sec rl"
    and "int (length (events rl)) \<le> py_int (rps rl)"
    and "clock_ok rl t0 cs" and "off_boundary rl cs"
  shows "\<exists>rl' dropped.
           RateLimiter_run rl cs = Inr rl' \<and>
           events rl @ admissions cs = dropped @ events rl' \<and>
           (\<forall>e \<in> set dropped. e < last (t0 # admissions cs) - window_sec rl) \<and>
           int (length (events rl')) \<le> py_int (rps rl)"
  using assms
proof (induction cs arbitrary: rl t0)
  case Nil
  then show ?case by simp
next
  case (Cons c cs)
  obtain t1 t2 t3 where c: "c = (t1, t2, t3)" by (cases c)
  from wait_step [of rl t0 t1 t2 t3 cs] Cons.prems c
  obtain slept rl1 d1 where w1: "RateLimiter_wait rl t1 t2 t3 = (Inr slept, rl1)"
    and same: "rps rl1 = rps rl" "window_sec rl1 = window_sec rl"
    and ev: "events rl @ [t3] = d1 @ events rl1"
    and d1: "\<forall>e \<in> set d1. e < t3 - window_sec rl"
    and l1: "int (length (events rl1)) \<le> py_int (rps rl)"
    by blast
  from Cons.prems(4) c w1 have ck1: "clock_ok rl1 t3 cs" by simp
  from Cons.prems(5) c w1 have ob1: "off_boundary rl1 cs" by simp
  from Cons.IH [of rl1 t3] Cons.prems(1,2) same l1 ck1 ob1
  obtain rl' d2 where run: "RateLimiter_run rl1 cs = Inr rl'"
    and ev2: "events rl1 @ admissions cs = d2 @ events rl'"
    and d2: "\<forall>e \<in> set d2. e < last (t3 # admissions cs) - window_sec rl"
    and l2: "int (length (events rl')) \<le> py_int (rps rl)"
    by auto
  from clock_ok_last [OF ck1] have mono: "t3 \<le> last (t3 # admissions cs)" .
  have "RateLimiter_run rl (c # cs) = Inr rl'" using c w1 run by simp
  moreover have "events rl @ admissions (c # cs) = (d1 @ d2) @ events rl'"
  proof -
    have "events rl @ admissions (c # cs) = (events rl @ [t3]) @ admissions cs"
      using c by simp
    also have "\<dots> = d1 @ (events rl1 @ admissions cs)" using ev by simp
    finally show ?thesis using ev2 by simp
  qed
  moreover have "\<forall>e \<in> set (d1 @ d2). e < last (t0 # admissions (c # cs)) - window_sec rl"
    using d1 d2 mono c by auto
  ultimately show ?case using l2 by blast
qed

lemma window_count_append:
  "window_count (xs @ ys) w now = window_count xs w now + window_count ys w now"
  by (simp add: window_count_def)

lemma window_count_old:
  "\<forall>e \<in> set xs. e < now - w \<Longrightarrow> window_count xs w now = 0"
  by (induction xs) (auto simp: window_count_def)

lemma window_count_le_length: "window_count xs w now \<le> length xs"
  by (simp add: window_count_def)

lemma wait_disabled: "rps rl \<le> 0 \<Longrightarrow> RateLimiter_wait rl t1 t2 t3 = (Inr None, rl)"
  by (simp add: RateLimiter_wait_def)

lemma wait_returns_from_rate_one:
  assumes "1 \<le> rps rl"
  shows "\<exists>slept rl'. RateLimiter_wait rl t1 t2 t3 = (Inr slept, rl')"
proof -
  from py_int_pos [OF assms] have "1 \<le> py_int (rps rl)" .
  then show ?thesis
    by (cases "popleft_expired (events rl) (t1 - window_sec rl)")
       (auto simp: RateLimiter_wait_def Let_def)
qed

lemma wait_raises_below_rate_one:
  assumes "0 < rps rl" and "rps rl < 1"
    and "popleft_expired (events rl) (t1 - window_sec rl) = []"
  shows "RateLimiter_wait rl t1 t2 t3 = (Inl IndexError, rl\<lparr>events := []\<rparr>)"
proof -
  from assms(1,2) have "\<lfloor>rps rl\<rfloor> = 0" by (intro floor_unique) simp_all
  with assms(1) have "py_int (rps rl) = 0" by (simp add: py_int_def)
  with assms show ?thesis by (simp add: RateLimiter_wait_def Let_def)
qed

subsection \<open>Claims about \<^verbatim>\<open>RateLimiter\<close>\<close>

text \<open>
  C5 (as amended). For a limiter with \<^verbatim>\<open>int(rps) >= 1\<close> and a positive window, starting with
  no recorded timestamp, under sequential calls of \<^verbatim>\<open>wait()\<close> with a clock that never runs
  backwards and a sleep that never returns early, and provided no call that finds the
  deque full reads the clock at exactly \<open>oldest + window_sec\<close>: every call returns, the
  deque never holds more than \<^verbatim>\<open>int(rps)\<close> timestamps, and at every instant not before the
  recorded admissions the number of recorded timestamps in \<open>[now - window_sec, now]\<close> is at
  most \<^verbatim>\<open>int(rps)\<close>. A call that finds the deque full with \<open>oldest + window_sec - now > 0\<close>
  sleeps for that long, prunes again at the reading taken after the sleep and records its
  own timestamp.
\<close>

theorem sliding_window_bound:
  "(1 \<le> py_int (rps rl) \<and> 0 < window_sec rl \<and> events rl = [] \<and>
    clock_ok rl t0 cs \<and> off_boundary rl cs \<longrightarrow>
      (\<exists>rl'. RateLimiter_run rl cs = Inr rl' \<and>
         int (length (events rl')) \<le> py_int (rps rl) \<and>
         (\<forall>now. (\<forall>e \<in> set (admissions cs). e \<le> now) \<longrightarrow>
            int (window_count (admissions cs) (window_sec rl) now) \<le> py_int (rps rl)))) \<and>
   (0 < rps l \<and> popleft_expired (events l) (u1 - window_sec l) = e0 # es \<and>
    py_int (rps l) \<le> int (length (e0 # es)) \<and> 0 < e0 + window_sec l - u1 \<longrightarrow>
      RateLimiter_wait l u1 u2 u3 =
        (Inr (Some (e0 + window_sec l - u1)),
         l\<lparr>events := popleft_expired (e0 # es) (u2 - window_sec l) @ [u3]\<rparr>))"
proof (intro conjI impI)
  assume a: "1 \<le> py_int (rps rl) \<and> 0 < window_sec rl \<and> events rl = [] \<and>
    clock_ok rl t0 cs \<and> off_boundary rl cs"
  then have r: "1 \<le> rps rl" by (simp add: py_int_ge_1)
  have "\<exists>rl' dropped.
           RateLimiter_run rl cs = Inr rl' \<and>
           events rl @ admissions cs = dropped @ events rl' \<and>
           (\<forall>e \<in> set dropped. e < last (t0 # admissions cs) - window_sec rl) \<and>
           int (length (events rl')) \<le> py_int (rps rl)"
    by (rule run_bound [OF r]) (use a in simp_all)
  then obtain rl' dropped where run: "RateLimiter_run rl cs = Inr rl'"
    and ev0: "events rl @ admissions cs = dropped @ events rl'"
    and old: "\<forall>e \<in> set dropped. e < last (t0 # admissions cs) - window_sec rl"
    and len: "int (length (events rl')) \<le> py_int (rps rl)"
    by blast
  from ev0 a have ev: "admissions cs = dropped @ events rl'" by simp
  have "int (window_count (admissions cs) (window_sec rl) now) \<le> py_int (rps rl)"
    if le: "\<forall>e \<in> set (admissions cs). e \<le> now" for now
  proof (cases "admissions cs = []")
    case True
    with a show ?thesis by (simp add: window_count_def)
  next
    case False
    then have "last (t0 # admissions cs) \<in> set (admissions cs)" by simp
    with le have "last (t0 # admissions cs) \<le> now" by blast
    with old have "\<forall>e \<in> set dropped. e < now - window_sec rl" by fastforce
    then have "window_count dropped (window_sec rl) now = 0" by (rule window_count_old)
    then have "window_count (admissions cs) (window_sec rl) now
                 = window_count (events rl') (window_sec rl) now"
      by (subst ev) (simp add: window_count_append)
    also have "\<dots> \<le> length (events rl')" by (rule window_count_le_length)
    finally show ?thesis using len by simp
  qed
  with run len show "\<exists>rl'. RateLimiter_run rl cs = Inr rl' \<and>
         int (length (events rl')) \<le> py_int (rps rl) \<and>
         (\<forall>now. (\<forall>e \<in> set (admissions cs). e \<le> now) \<longrightarrow>
            int (window_count (admissions cs) (window_sec rl) now) \<le> py_int (rps rl))"
    by blast
next
  assume "0 < rps l \<and> popleft_expired (events l) (u1 - window_sec l) = e0 # es \<and>
    py_int (rps l) \<le> int (length (e0 # es)) \<and> 0 < e0 + window_sec l - u1"
  then show "RateLimiter_wait l u1 u2 u3 =
        (Inr (Some (e0 + window_sec l - u1)),
         l\<lparr>events := popleft_expired (e0 # es) (u2 - window_sec l) @ [u3]\<rparr>)"
    by (simp add: RateLimiter_wait_def Let_def)
qed

theorem sliding_window_bound_witness:
  "RateLimiter_run (RateLimiter_init 2 1)
       [(0, 0, 0), (1/4, 1/4, 1/4), (1/2, 9/8, 9/8), (3/2, 3/2, 3/2)]
     = Inr \<lparr>rps = 2, window_sec = 1, events = [9/8, 3/2]\<rparr> \<and>
   window_count (admissions [(0, 0, 0), (1/4, 1/4, 1/4), (1/2, 9/8, 9/8), (3/2, 3/2, 3/2)]) 1 (3/2)
     = 2 \<and>
   py_int 2 = 2 \<and>
   clock_ok (RateLimiter_init 2 1) 0
       [(0, 0, 0), (1/4, 1/4, 1/4), (1/2, 9/8, 9/8), (3/2, 3/2, 3/2)] \<and>
   off_boundary (RateLimiter_init 2 1)
       [(0, 0, 0), (1/4, 1/4, 1/4), (1/2, 9/8, 9/8), (3/2, 3/2, 3/2)] \<and>
   RateLimiter_wait \<lparr>rps = 2, window_sec = 1, events = [0, 1/4]\<rparr> (1/2) (9/8) (9/8)
     = (Inr (Some (1/2)), \<lparr>rps = 2, window_sec = 1, events = [1/4, 9/8]\<rparr>)"
  using sliding_window_bound
    [where rl = "RateLimiter_init 2 1" and ?t0.0 = 0
       and cs = "[(0, 0, 0), (1/4, 1/4, 1/4), (1/2, 9/8, 9/8), (3/2, 3/2, 3/2)]"
       and l = "\<lparr>rps = 2, window_sec = 1, events = [0, 1/4]\<rparr>" and ?u1.0 = "1/2"
       and ?u2.0 = "9/8" and ?u3.0 = "9/8" and ?e0.0 = 0 and es = "[1/4]"]
  by (simp add: RateLimiter_init_def RateLimiter_wait_def py_int_def window_count_def)

text \<open>
  Without the proviso the bound fails. With one event per second allowed, a call at time 0
  and a call at time 1 are both admitted without sleeping (the first timestamp is neither
  older than the cutoff nor is the computed sleep positive), and both timestamps lie in
  the window \<open>[0, 1]\<close>.
\<close>

theorem sliding_window_bound_counterexample:
  "RateLimiter_run (RateLimiter_init 1 1) [(0, 0, 0), (1, 1, 1)]
     = Inr \<lparr>rps = 1, window_sec = 1, events = [0, 1]\<rparr> \<and>
   clock_ok (RateLimiter_init 1 1) 0 [(0, 0, 0), (1, 1, 1)] \<and>
   window_count (admissions [(0, 0, 0), (1, 1, 1)]) 1 1 = 2 \<and>
   py_int 1 = 1"
  by (simp add: RateLimiter_init_def RateLimiter_wait_def py_int_def window_count_def)

text \<open>
  C6. Totality of \<^verbatim>\<open>wait()\<close> fails for a fractional rate: with \<^verbatim>\<open>rps = 0.5\<close> the limiter is
  not disabled (\<^verbatim>\<open>0.5 > 0\<close>), \<^verbatim>\<open>int(0.5) = 0\<close> makes the test \<^verbatim>\<open>len(self.events) >= 0\<close> true
  on the empty deque, and \<^verbatim>\<open>self.events[0]\<close> raises IndexError, at every clock reading and
  for every window width. (So does every rate strictly between 0 and 1 once the pruning
  loop has emptied the deque: \<open>wait_raises_below_rate_one\<close>. A rate \<open>\<le> 0\<close> returns at once,
  \<open>wait_disabled\<close>, and a rate \<open>\<ge> 1\<close> never raises, \<open>wait_returns_from_rate_one\<close>.)
\<close>

theorem wait_raises_on_fractional_rate:
  "RateLimiter_wait (RateLimiter_init (1/2) w) t1 t2 t3
     = (Inl IndexError, RateLimiter_init (1/2) w)"
  by (simp add: RateLimiter_wait_def RateLimiter_init_def py_int_def)

subsection \<open>Facts about the get-or-fetch functions\<close>

lemma get_adds_nothing:
  assumes "TTLCache_get c k ttl now = Inr (r, c')"
  shows "(\<not> od_contains (cache c) k \<longrightarrow> c' = c) \<and>
         (\<forall>k' v. map_of (cache c') k' = Some v \<longrightarrow>
                   map_of (cache c) k' = Some v \<and> expirations c' k' = expirations c k')"
proof (cases "map_of (cache c) k")
  case None
  with assms show ?thesis by (simp add: get_eq)
next
  case (Some u)
  then have present: "od_contains (cache c) k" by (simp add: od_contains_map_of)
  from assms Some obtain expiry where e: "expirations c k = Some expiry"
    by (cases "expirations c k") (simp_all add: get_eq)
  show ?thesis
  proof (cases "now > expiry")
    case True
    with assms Some e have "c' = c\<lparr>cache := AList.delete k (cache c),
                                   expirations := (expirations c)(k := None)\<rparr>"
      by (simp add: get_eq)
    with present show ?thesis
      by (auto simp: delete_conv' split: if_splits)
  next
    case False
    with assms Some e have "c' = c\<lparr>cache := AList.delete k (cache c) @ [(k, u)]\<rparr>"
      by (simp add: get_eq)
    with present Some show ?thesis
      by (auto simp: delete_conv' map_add_def split: if_splits option.splits)
  qed
qed

lemma coordinates_hit:
  assumes "TTLCache_get (geocode_cache w) (''geo_'' @ city) (GEOCODE_TTL cfg) (t_lookup clk)
             = Inr (Some v, gc)" and "truthy v"
  shows "get_coordinates cfg float_of_str clk resp w city = (Inr v, w\<lparr>geocode_cache := gc\<rparr>)"
  using assms by (simp add: get_coordinates_def returned_def)

lemma current_weather_hit:
  assumes "TTLCache_get (weather_cache w)
             (''weather_'' @ str_of_float lat @ ''_'' @ str_of_float lon @ ''_'' @ units)
             (WEATHER_TTL cfg) (t_lookup clk) = Inr (Some v, wc)" and "truthy v"
  shows "get_current_weather cfg str_of_float clk resp w lat lon units
           = (Inr v, w\<lparr>weather_cache := wc\<rparr>)"
  using assms by (simp add: get_current_weather_def returned_def)

lemma weather_forecast_hit:
  assumes "TTLCache_get (forecast_cache w)
             (''forecast_'' @ str_of_float lat @ ''_'' @ str_of_float lon @ ''_''
                @ str_of_int days @ ''_'' @ units)
             (FORECAST_TTL cfg) (t_lookup clk) = Inr (Some v, fc)" and "truthy v"
  shows "get_weather_forecast cfg str_of_float clk resp w lat lon days units
           = (Inr v, w\<lparr>forecast_cache := fc\<rparr>)"
  using assms by (simp add: get_weather_forecast_def returned_def)

lemma fetched_failure:
  "resp = ConnectionFailed \<or> resp = BadStatus \<Longrightarrow> fetched resp = Inl RequestException"
  by (auto simp: fetched_def)

subsection \<open>Claims about the get-or-fetch functions\<close>

text \<open>
  C7. A present, unexpired entry is not always served from the cache: the hit test is
  \<^verbatim>\<open>if cached:\<close>, so a stored value that is falsy is fetched again. A response without
  \<^verbatim>\<open>"current_weather"\<close> makes \<^verbatim>\<open>get_current_weather\<close> store \<^verbatim>\<open>{}\<close>; the second lookup of the
  same key one second later, well within the 300 seconds, finds the entry (the middle
  equation: \<^verbatim>\<open>get\<close> returns it), passes the rate limiter and issues a second external
  call. (A truthy entry is served without either: \<open>coordinates_hit\<close>,
  \<open>current_weather_hit\<close>, \<open>weather_forecast_hit\<close>.)
\<close>

theorem falsy_cached_value_is_refetched:
  "get_current_weather Config_default str_of_float
       \<lparr>t_lookup = 0, t_wait = 0, t_woke = 0, t_admit = 0, t_store = 0\<rparr>
       (Json (PDict [])) world_init lat lon units
     = (Inr (PDict []),
        world_init\<lparr>weather_cache :=
            \<lparr>max_items = 1000,
               cache = [(''weather_'' @ str_of_float lat @ ''_'' @ str_of_float lon @ ''_'' @ units,
                         PDict [])],
               expirations =
                 [''weather_'' @ str_of_float lat @ ''_'' @ str_of_float lon @ ''_'' @ units
                    \<mapsto> 300]\<rparr>,
          rate_limiter := \<lparr>rps = 5, window_sec = 1, events = [0]\<rparr>,
          external_calls := 1\<rparr>) \<and>
   TTLCache_get
       \<lparr>max_items = 1000,
          cache = [(''weather_'' @ str_of_float lat @ ''_'' @ str_of_float lon @ ''_'' @ units,
                    PDict [])],
          expirations =
            [''weather_'' @ str_of_float lat @ ''_'' @ str_of_float lon @ ''_'' @ units
               \<mapsto> 300]\<rparr>
       (''weather_'' @ str_of_float lat @ ''_'' @ str_of_float lon @ ''_'' @ units) 300 1
     = Inr (Some (PDict []),
            \<lparr>max_items = 1000,
               cache = [(''weather_'' @ str_of_float lat @ ''_'' @ str_of_float lon @ ''_'' @ units,
                         PDict [])],
               expirations =
                 [''weather_'' @ str_of_float lat @ ''_'' @ str_of_float lon @ ''_'' @ units
                    \<mapsto> 300]\<rparr>) \<and>
   get_current_weather Config_default str_of_float
       \<lparr>t_lookup = 1, t_wait = 1, t_woke = 1, t_admit = 1, t_store = 1\<rparr>
       (Json (PDict []))
       (world_init\<lparr>weather_cache :=
            \<lparr>max_items = 1000,
               cache = [(''weather_'' @ str_of_float lat @ ''_'' @ str_of_float lon @ ''_'' @ units,
                         PDict [])],
               expirations =
                 [''weather_'' @ str_of_float lat @ ''_'' @ str_of_float lon @ ''_'' @ units
                    \<mapsto> 300]\<rparr>,
          rate_limiter := \<lparr>rps = 5, window_sec = 1, events = [0]\<rparr>,
          external_calls := 1\<rparr>) lat lon units
     = (Inr (PDict []),
        world_init\<lparr>weather_cache :=
            \<lparr>max_items = 1000,
               cache = [(''weather_'' @ str_of_float lat @ ''_'' @ str_of_float lon @ ''_'' @ units,
                         PDict [])],
               expirations =
                 [''weather_'' @ str_of_float lat @ ''_'' @ str_of_float lon @ ''_'' @ units
                    \<mapsto> 301]\<rparr>,
          rate_limiter := \<lparr>rps = 5, window_sec = 1, events = [0, 1]\<rparr>,
          external_calls := 2\<rparr>)"
  by (simp add: get_current_weather_def Config_default_def world_init_def TTLCache_init_def
                RateLimiter_init_def get_eq set_eq RateLimiter_wait_def py_int_def fetched_def
                returned_def od_contains_def Let_def float_range_small)

text \<open>
  C8 (as amended). When the fetch fails (\<^verbatim>\<open>session.get\<close> or \<^verbatim>\<open>raise_for_status\<close> raises a
  \<^verbatim>\<open>RequestException\<close>) the function raises its domain error, \<^verbatim>\<open>GeocodingError\<close> for
  \<^verbatim>\<open>get_coordinates\<close> and \<^verbatim>\<open>WeatherAPIError\<close> for the two weather functions, and writes
  nothing: the cache is left exactly as the initial \<^verbatim>\<open>get\<close> left it. That lookup adds no
  entry and changes no value or expiration of an entry it keeps, and it leaves the cache
  untouched when the key was not in it.
\<close>

theorem fetch_failure_writes_nothing:
  "((resp = ConnectionFailed \<or> resp = BadStatus) \<and>
    RateLimiter_wait (rate_limiter w) (t_wait clk) (t_woke clk) (t_admit clk) = (Inr slept, rl) \<and>
    \<not> truthy (returned r) \<longrightarrow>
      (TTLCache_get (geocode_cache w) (''geo_'' @ city) (GEOCODE_TTL cfg) (t_lookup clk)
         = Inr (r, c') \<longrightarrow>
       get_coordinates cfg float_of_str clk resp w city
         = (Inl (GeocodingError (CoordinatesFailed RequestException)),
            w\<lparr>geocode_cache := c', rate_limiter := rl,
              external_calls := Suc (external_calls w)\<rparr>)) \<and>
      (TTLCache_get (weather_cache w)
           (''weather_'' @ str_of_float lat @ ''_'' @ str_of_float lon @ ''_'' @ units)
           (WEATHER_TTL cfg) (t_lookup clk)
         = Inr (r, c') \<longrightarrow>
       get_current_weather cfg str_of_float clk resp w lat lon units
         = (Inl (WeatherAPIError (WeatherFailed RequestException)),
            w\<lparr>weather_cache := c', rate_limiter := rl,
              external_calls := Suc (external_calls w)\<rparr>)) \<and>
      (TTLCache_get (forecast_cache w)
           (''forecast_'' @ str_of_float lat @ ''_'' @ str_of_float lon @ ''_''
              @ str_of_int days @ ''_'' @ units)
           (FORECAST_TTL cfg) (t_lookup clk)
         = Inr (r, c') \<longrightarrow>
       get_weather_forecast cfg str_of_float clk resp w lat lon days units
         = (Inl (WeatherAPIError (ForecastFailed RequestException)),
            w\<lparr>forecast_cache := c', rate_limiter := rl,
              external_calls := Suc (external_calls w)\<rparr>))) \<and>
   (TTLCache_get (c :: (string, pyval) TTLCache) k ttl now = Inr (found, left) \<longrightarrow>
      (\<not> od_contains (cache c) k \<longrightarrow> left = c) \<and>
      (\<forall>k' v. map_of (cache left) k' = Some v \<longrightarrow>
                map_of (cache c) k' = Some v \<and> expirations left k' = expirations c k'))"
proof (intro conjI impI)
  assume "TTLCache_get c k ttl now = Inr (found, left)"
  from get_adds_nothing [OF this]
  show "\<forall>k' v. map_of (cache left) k' = Some v \<longrightarrow>
                map_of (cache c) k' = Some v \<and> expirations left k' = expirations c k'"
    by blast
next
  assume "TTLCache_get c k ttl now = Inr (found, left)" and "\<not> od_contains (cache c) k"
  with get_adds_nothing [of c k ttl now found left] show "left = c" by blast
next
  assume a: "(resp = ConnectionFailed \<or> resp = BadStatus) \<and>
    RateLimiter_wait (rate_limiter w) (t_wait clk) (t_woke clk) (t_admit clk) = (Inr slept, rl) \<and>
    \<not> truthy (returned r)"
    and g: "TTLCache_get (geocode_cache w) (''geo_'' @ city) (GEOCODE_TTL cfg) (t_lookup clk)
         = Inr (r, c')"
  from a have f: "fetched resp = Inl RequestException" by (simp add: fetched_failure)
  from a g f show "get_coordinates cfg float_of_str clk resp w city
         = (Inl (GeocodingError (CoordinatesFailed RequestException)),
            w\<lparr>geocode_cache := c', rate_limiter := rl,
              external_calls := Suc (external_calls w)\<rparr>)"
    by (simp add: get_coordinates_def geocoding_handler_def)
next
  assume a: "(resp = ConnectionFailed \<or> resp = BadStatus) \<and>
    RateLimiter_wait (rate_limiter w) (t_wait clk) (t_woke clk) (t_admit clk) = (Inr slept, rl) \<and>
    \<not> truthy (returned r)"
    and g: "TTLCache_get (weather_cache w)
           (''weather_'' @ str_of_float lat @ ''_'' @ str_of_float lon @ ''_'' @ units)
           (WEATHER_TTL cfg) (t_lookup clk)
         = Inr (r, c')"
  from a have f: "fetched resp = Inl RequestException" by (simp add: fetched_failure)
  from a g f show "get_current_weather cfg str_of_float clk resp w lat lon units
         = (Inl (WeatherAPIError (WeatherFailed RequestException)),
            w\<lparr>weather_cache := c', rate_limiter := rl,
              external_calls := Suc (external_calls w)\<rparr>)"
    by (simp add: get_current_weather_def weather_handler_def)
next
  assume a: "(resp = ConnectionFailed \<or> resp = BadStatus) \<and>
    RateLimiter_wait (rate_limiter w) (t_wait clk) (t_woke clk) (t_admit clk) = (Inr slept, rl) \<and>
    \<not> truthy (returned r)"
    and g: "TTLCache_get (forecast_cache w)
           (''forecast_'' @ str_of_float lat @ ''_'' @ str_of_float lon @ ''_''
              @ str_of_int days @ ''_'' @ units)
           (FORECAST_TTL cfg) (t_lookup clk)
         = Inr (r, c')"
  from a have f: "fetched resp = Inl RequestException" by (simp add: fetched_failure)
  from a g f show "get_weather_forecast cfg str_of_float clk resp w lat lon days units
         = (Inl (WeatherAPIError (ForecastFailed RequestException)),
            w\<lparr>forecast_cache := c', rate_limiter := rl,
              external_calls := Suc (external_calls w)\<rparr>)"
    by (simp add: get_weather_forecast_def weather_handler_def)
qed

theorem fetch_failure_writes_nothing_witness:
  "RateLimiter_wait (rate_limiter world_init) 0 0 0
     = (Inr None, \<lparr>rps = 5, window_sec = 1, events = [0]\<rparr>) \<and>
   TTLCache_get \<lparr>max_items = 1000,
                 cache = [(''geo_Paris'', PTuple [PFloat 48, PFloat 2]), (''geo_Rome'', PNone)],
                 expirations = [''geo_Paris'' \<mapsto> 10, ''geo_Rome'' \<mapsto> 20]\<rparr>
       ''geo_Paris'' 3600 11
     = Inr (None, \<lparr>max_items = 1000, cache = [(''geo_Rome'', PNone)],
                   expirations = [''geo_Rome'' \<mapsto> 20]\<rparr>) \<and>
   TTLCache_get (TTLCache_init 1000 :: (string, pyval) TTLCache) ''geo_Paris'' 3600 0
     = Inr (None, TTLCache_init 1000) \<and>
   get_coordinates Config_default Map.empty
       \<lparr>t_lookup = 0, t_wait = 0, t_woke = 0, t_admit = 0, t_store = 0\<rparr>
       ConnectionFailed world_init ''Paris''
     = (Inl (GeocodingError (CoordinatesFailed RequestException)),
        world_init\<lparr>rate_limiter := \<lparr>rps = 5, window_sec = 1, events = [0]\<rparr>,
                     external_calls := 1\<rparr>) \<and>
   get_current_weather Config_default (\<lambda>x. ''0.0'')
       \<lparr>t_lookup = 0, t_wait = 0, t_woke = 0, t_admit = 0, t_store = 0\<rparr>
       ConnectionFailed world_init 48 2 ''metric''
     = (Inl (WeatherAPIError (WeatherFailed RequestException)),
        world_init\<lparr>rate_limiter := \<lparr>rps = 5, window_sec = 1, events = [0]\<rparr>,
                     external_calls := 1\<rparr>) \<and>
   get_weather_forecast Config_default (\<lambda>x. ''0.0'')
       \<lparr>t_lookup = 0, t_wait = 0, t_woke = 0, t_admit = 0, t_store = 0\<rparr>
       ConnectionFailed world_init 48 2 7 ''metric''
     = (Inl (WeatherAPIError (ForecastFailed RequestException)),
        world_init\<lparr>rate_limiter := \<lparr>rps = 5, window_sec = 1, events = [0]\<rparr>,
                     external_calls := 1\<rparr>)"
  using fetch_failure_writes_nothing
    [where resp = ConnectionFailed and w = world_init
       and clk = "\<lparr>t_lookup = 0, t_wait = 0, t_woke = 0, t_admit = 0, t_store = 0\<rparr>"
       and slept = None and rl = "\<lparr>rps = 5, window_sec = 1, events = [0]\<rparr>"
       and r = None and c' = "TTLCache_init 1000" and city = "''Paris''"
       and cfg = Config_default and float_of_str = Map.empty and str_of_float = "\<lambda>x. ''0.0''"
       and lat = 48 and lon = 2 and units = "''metric''" and days = 7
       and c = "\<lparr>max_items = 1000,
                  cache = [(''geo_Paris'', PTuple [PFloat 48, PFloat 2]), (''geo_Rome'', PNone)],
                  expirations = [''geo_Paris'' \<mapsto> 10, ''geo_Rome'' \<mapsto> 20]\<rparr>"
       and k = "''geo_Paris''" and ttl = 3600 and now = 11 and found = None
       and left = "\<lparr>max_items = 1000, cache = [(''geo_Rome'', PNone)],
                     expirations = [''geo_Rome'' \<mapsto> 20]\<rparr>"]
  by (simp add: world_init_def Config_default_def TTLCache_init_def RateLimiter_init_def
                RateLimiter_wait_def py_int_def get_eq returned_def)

text \<open>
  The cache state is not always unchanged: the lookup that precedes the failed fetch purges
  an expired entry of the key.
\<close>

theorem fetch_failure_writes_nothing_counterexample:
  "get_coordinates Config_default Map.empty
       \<lparr>t_lookup = 11, t_wait = 11, t_woke = 11, t_admit = 11, t_store = 11\<rparr>
       ConnectionFailed
       (world_init\<lparr>geocode_cache :=
           \<lparr>max_items = 1000, cache = [(''geo_Paris'', PTuple [PFloat 48, PFloat 2])],
              expirations = [''geo_Paris'' \<mapsto> 10]\<rparr>\<rparr>)
       ''Paris''
     = (Inl (GeocodingError (CoordinatesFailed RequestException)),
        world_init\<lparr>geocode_cache :=
                       \<lparr>max_items = 1000, cache = [], expirations = Map.empty\<rparr>,
                     rate_limiter := \<lparr>rps = 5, window_sec = 1, events = [11]\<rparr>,
                     external_calls := 1\<rparr>)"
  by (simp add: get_coordinates_def world_init_def Config_default_def TTLCache_init_def
                RateLimiter_init_def RateLimiter_wait_def py_int_def get_eq returned_def
                fetched_def geocoding_handler_def od_contains_def Let_def)

text \<open>
  C9 (as amended). On a miss, an empty geocoding result and a transport failure both make
  \<^verbatim>\<open>get_coordinates\<close> raise \<^verbatim>\<open>GeocodingError\<close>: the same class, with different messages
  (line 50 and line 62). Neither writes to the cache.
\<close>

theorem not_found_is_a_geocoding_error_too:
  "RateLimiter_wait (rate_limiter w) (t_wait clk) (t_woke clk) (t_admit clk) = (Inr slept, rl) \<and>
   TTLCache_get (geocode_cache w) (''geo_'' @ city) (GEOCODE_TTL cfg) (t_lookup clk)
     = Inr (r, c') \<and>
   \<not> truthy (returned r) \<and> \<not> truthy data \<and> (resp = ConnectionFailed \<or> resp = BadStatus) \<longrightarrow>
     get_coordinates cfg float_of_str clk (Json data) w city
       = (Inl (GeocodingError (CityNotFound city)),
          w\<lparr>geocode_cache := c', rate_limiter := rl,
            external_calls := Suc (external_calls w)\<rparr>) \<and>
     get_coordinates cfg float_of_str clk resp w city
       = (Inl (GeocodingError (CoordinatesFailed RequestException)),
          w\<lparr>geocode_cache := c', rate_limiter := rl,
            external_calls := Suc (external_calls w)\<rparr>) \<and>
     class_of (GeocodingError (CityNotFound city)) = GeocodingErrorClass \<and>
     class_of (GeocodingError (CoordinatesFailed RequestException)) = GeocodingErrorClass \<and>
     CityNotFound city \<noteq> CoordinatesFailed RequestException"
proof
  assume a: "RateLimiter_wait (rate_limiter w) (t_wait clk) (t_woke clk) (t_admit clk) = (Inr slept, rl) \<and>
   TTLCache_get (geocode_cache w) (''geo_'' @ city) (GEOCODE_TTL cfg) (t_lookup clk)
     = Inr (r, c') \<and>
   \<not> truthy (returned r) \<and> \<not> truthy data \<and> (resp = ConnectionFailed \<or> resp = BadStatus)"
  then have f: "fetched resp = Inl RequestException" by (simp add: fetched_failure)
  have j: "fetched (Json data) = Inr data" by (simp add: fetched_def)
  from a have p: "parse_coordinates float_of_str city data = Inl (GeocodingError (CityNotFound city))"
    by (simp add: parse_coordinates_def)
  from a f j p show "get_coordinates cfg float_of_str clk (Json data) w city
       = (Inl (GeocodingError (CityNotFound city)),
          w\<lparr>geocode_cache := c', rate_limiter := rl,
            external_calls := Suc (external_calls w)\<rparr>) \<and>
     get_coordinates cfg float_of_str clk resp w city
       = (Inl (GeocodingError (CoordinatesFailed RequestException)),
          w\<lparr>geocode_cache := c', rate_limiter := rl,
            external_calls := Suc (external_calls w)\<rparr>) \<and>
     class_of (GeocodingError (CityNotFound city)) = GeocodingErrorClass \<and>
     class_of (GeocodingError (CoordinatesFailed RequestException)) = GeocodingErrorClass \<and>
     CityNotFound city \<noteq> CoordinatesFailed RequestException"
    by (simp add: get_coordinates_def geocoding_handler_def)
qed

theorem not_found_is_a_geocoding_error_too_witness:
  "RateLimiter_wait (rate_limiter world_init) 0 0 0
     = (Inr None, \<lparr>rps = 5, window_sec = 1, events = [0]\<rparr>) \<and>
   TTLCache_get (geocode_cache world_init) ''geo_Atlantis'' 3600 0
     = Inr (None, TTLCache_init 1000) \<and>
   get_coordinates Config_default Map.empty
       \<lparr>t_lookup = 0, t_wait = 0, t_woke = 0, t_admit = 0, t_store = 0\<rparr>
       (Json (PList [])) world_init ''Atlantis''
     = (Inl (GeocodingError (CityNotFound ''Atlantis'')),
        world_init\<lparr>rate_limiter := \<lparr>rps = 5, window_sec = 1, events = [0]\<rparr>,
                     external_calls := 1\<rparr>) \<and>
   get_coordinates Config_default Map.empty
       \<lparr>t_lookup = 0, t_wait = 0, t_woke = 0, t_admit = 0, t_store = 0\<rparr>
       BadStatus world_init ''Atlantis''
     = (Inl (GeocodingError (CoordinatesFailed RequestException)),
        world_init\<lparr>rate_limiter := \<lparr>rps = 5, window_sec = 1, events = [0]\<rparr>,
                     external_calls := 1\<rparr>)"
  using not_found_is_a_geocoding_error_too
    [where w = world_init
       and clk = "\<lparr>t_lookup = 0, t_wait = 0, t_woke = 0, t_admit = 0, t_store = 0\<rparr>"
       and slept = None and rl = "\<lparr>rps = 5, window_sec = 1, events = [0]\<rparr>"
       and r = None and c' = "TTLCache_init 1000" and city = "''Atlantis''"
       and cfg = Config_default and float_of_str = Map.empty and data = "PList []"
       and resp = BadStatus]
  by (simp add: world_init_def Config_default_def TTLCache_init_def RateLimiter_init_def
                RateLimiter_wait_def py_int_def get_eq returned_def)

text \<open>
  The two errors are not of different kinds: for the city Atlantis, the empty result set
  and the unreachable service raise exceptions of the same class.
\<close>

theorem not_found_is_a_geocoding_error_too_counterexample:
  "fst (get_coordinates Config_default Map.empty
          \<lparr>t_lookup = 0, t_wait = 0, t_woke = 0, t_admit = 0, t_store = 0\<rparr>
          (Json (PList [])) world_init ''Atlantis'')
     = Inl (GeocodingError (CityNotFound ''Atlantis'')) \<and>
   fst (get_coordinates Config_default Map.empty
          \<lparr>t_lookup = 0, t_wait = 0, t_woke = 0, t_admit = 0, t_store = 0\<rparr>
          ConnectionFailed world_init ''Atlantis'')
     = Inl (GeocodingError (CoordinatesFailed RequestException)) \<and>
   class_of (GeocodingError (CityNotFound ''Atlantis''))
     = class_of (GeocodingError (CoordinatesFailed RequestException))"
  by (simp add: get_coordinates_def world_init_def Config_default_def TTLCache_init_def
                RateLimiter_init_def RateLimiter_wait_def py_int_def get_eq returned_def
                fetched_def geocoding_handler_def parse_coordinates_def Let_def)

end
